theory Spec2Isabelle
  imports Complex_Main "HOL-Library.Sublist" "HOL-Library.AList"
begin

section \<open>JavaScript strings\<close>

text \<open>
  Strings are \<open>string\<close> (lists of characters). The helpers below are the JavaScript
  string methods that \<open>ChatService\<close> calls: \<open>startsWith\<close>, \<open>endsWith\<close>,
  \<open>includes\<close>, \<open>split\<close> with a non-empty separator, \<open>trim\<close>.
\<close>

definition startsWith :: "string \<Rightarrow> string \<Rightarrow> bool" where
  "startsWith s p = prefix p s"

definition endsWith :: "string \<Rightarrow> string \<Rightarrow> bool" where
  "endsWith s p = prefix (rev p) (rev s)"

fun jsIncludes :: "string \<Rightarrow> string \<Rightarrow> bool" where
  "jsIncludes [] p = (p = [])"
| "jsIncludes (c # cs) p = (prefix p (c # cs) \<or> jsIncludes cs p)"

text \<open>
  \<open>splitFirst sep s\<close> cuts \<open>s\<close> at the first occurrence of \<open>sep\<close>: the text before it
  and the text after it.
\<close>

fun splitFirst :: "string \<Rightarrow> string \<Rightarrow> (string \<times> string) option" where
  "splitFirst sep [] = (if sep = [] then Some ([], []) else None)"
| "splitFirst sep (c # cs) =
     (if prefix sep (c # cs) then Some ([], drop (length sep) (c # cs))
      else (case splitFirst sep cs of
              None \<Rightarrow> None
            | Some (a, b) \<Rightarrow> Some (c # a, b)))"

lemma splitFirst_shorter:
  "splitFirst sep s = Some (a, b) \<Longrightarrow> sep \<noteq> [] \<Longrightarrow> length b < length s"
proof (induction s arbitrary: a b)
  case Nil
  then show ?case by simp
next
  case (Cons c cs)
  show ?case
  proof (cases "prefix sep (c # cs)")
    case True
    with Cons.prems show ?thesis by auto
  next
    case False
    with Cons.prems obtain a' where "splitFirst sep cs = Some (a', b)"
      by (auto split: option.splits)
    from Cons.IH [OF this Cons.prems(2)] show ?thesis by simp
  qed
qed

text \<open>\<open>s.split(sep)\<close> for a non-empty separator: every piece between occurrences.\<close>

function jsSplit :: "string \<Rightarrow> string \<Rightarrow> string list" where
  "jsSplit s sep =
     (if sep = [] then map (\<lambda>c. [c]) s
      else (case splitFirst sep s of
              None \<Rightarrow> [s]
            | Some (a, b) \<Rightarrow> a # jsSplit b sep))"
  by pat_completeness auto
termination
  by (relation "measure (\<lambda>(s, sep). length s)") (auto dest: splitFirst_shorter)

declare jsSplit.simps [simp del]

text \<open>\<open>parts[i] || ''\<close>: a missing or empty piece reads as the empty string.\<close>

definition partOrEmpty :: "string list \<Rightarrow> nat \<Rightarrow> string" where
  "partOrEmpty parts i = (if i < length parts then parts ! i else [])"

text \<open>
  A string is a list of \<open>char\<close>: the code units below 256, read as the code points of
  the same number. \<open>String.prototype.trim\<close> strips the white space and the line
  terminators of the language; among these code units they are tab, line feed, vertical
  tab, form feed, carriage return, space and the no-break space U+00A0. The others
  (U+FEFF, U+1680, U+2000 to U+200A, U+2028, U+2029, U+202F, U+205F, U+3000) lie above
  255 and are no value of this type.
\<close>

definition isSpace :: "char \<Rightarrow> bool" where
  "isSpace c =
     (c \<in> set [CHR 0x09, CHR 0x0A, CHR 0x0B, CHR 0x0C, CHR 0x0D, CHR '' '', CHR 0xA0])"

definition trim :: "string \<Rightarrow> string" where
  "trim s = rev (dropWhile isSpace (rev (dropWhile isSpace s)))"

text \<open>Truthiness of an optional string: defined and not empty.\<close>

fun truthy :: "string option \<Rightarrow> bool" where
  "truthy None = False"
| "truthy (Some s) = (s \<noteq> [])"

section \<open>Tool calls and their streamed fragments\<close>

record tool_function =
  fn_name :: "string option"
  fn_arguments :: "string option"

record tool_call =
  tc_id :: "string option"
  tc_type :: "string option"
  tc_function :: "tool_function option"

text \<open>
  A streamed fragment. \<open>td_index\<close> is \<open>None\<close> when \<open>delta.index\<close> is not a number;
  a number is taken to be an integer, as the API sends it.
\<close>

record tool_call_delta =
  td_index :: "int option"
  td_id :: "string option"
  td_type :: "string option"
  td_function :: "tool_function option"

definition emptyCall :: tool_call where
  "emptyCall = \<lparr>tc_id = None, tc_type = None, tc_function = None\<rparr>"

definition emptyFunction :: tool_function where
  "emptyFunction = \<lparr>fn_name = None, fn_arguments = None\<rparr>"

text \<open>The body of \<open>if (delta.function) { ... }\<close> in \<open>mergeToolCallDeltas\<close>.\<close>

definition mergeFunction :: "tool_function option \<Rightarrow> tool_function \<Rightarrow> tool_function" where
  "mergeFunction target df =
     (let fn = (case target of Some f \<Rightarrow> f | None \<Rightarrow> emptyFunction);
          fn1 = (if truthy (fn_name df) then fn\<lparr>fn_name := fn_name df\<rparr> else fn);
          fn2 = (case fn_arguments df of
                   None \<Rightarrow> fn1
                 | Some a \<Rightarrow>
                     if a \<noteq> [] then
                       fn1\<lparr>fn_arguments :=
                         Some ((case fn_arguments fn1 of None \<Rightarrow> [] | Some old \<Rightarrow> old) @ a)\<rparr>
                     else fn1)
      in fn2)"

text \<open>What one fragment does to the call it targets.\<close>

definition applyDelta :: "tool_call_delta \<Rightarrow> tool_call \<Rightarrow> tool_call" where
  "applyDelta delta target =
     (let t1 = (if truthy (td_id delta) then target\<lparr>tc_id := td_id delta\<rparr> else target);
          t2 = (if truthy (td_type delta) then t1\<lparr>tc_type := td_type delta\<rparr> else t1)
      in (case td_function delta of
            None \<Rightarrow> t2
          | Some df \<Rightarrow> t2\<lparr>tc_function := Some (mergeFunction (tc_function t2) df)\<rparr>))"

text \<open>
  The index a fragment targets: \<open>delta.index + indexOffset\<close> when the index is a
  number \<open>\<ge> 0\<close>, otherwise the current length of the result.
\<close>

definition targetIndex :: "nat \<Rightarrow> tool_call list \<Rightarrow> tool_call_delta \<Rightarrow> nat" where
  "targetIndex indexOffset result delta =
     (case td_index delta of
        Some i \<Rightarrow> if 0 \<le> i then nat i + indexOffset else length result
      | None \<Rightarrow> length result)"

text \<open>
  One turn of the \<open>for\<close> loop: the \<open>while\<close> loop pads the result with empty calls
  up to the index, then the target is updated in place.
\<close>

definition mergeDelta :: "nat \<Rightarrow> tool_call list \<Rightarrow> tool_call_delta \<Rightarrow> tool_call list" where
  "mergeDelta indexOffset result delta =
     (let index = targetIndex indexOffset result delta;
          padded = result @ replicate (Suc index - length result) emptyCall
      in padded[index := applyDelta delta (padded ! index)])"

definition mergeToolCallDeltas ::
  "tool_call list \<Rightarrow> tool_call_delta list \<Rightarrow> nat \<Rightarrow> tool_call list" where
  "mergeToolCallDeltas existing deltas indexOffset =
     foldl (mergeDelta indexOffset) existing deltas"

section \<open>JavaScript values and objects\<close>

text \<open>
  The request body is a JavaScript object that the code builds by assignment, filters
  with \<open>delete\<close> and extends with \<open>Object.assign\<close>, so it is modelled as what it is:
  a list of properties in insertion order. A property can hold \<open>undefined\<close>;
  \<open>JSON.stringify\<close> leaves such a property out of the wire request. JavaScript
  lists keys that are array indices (\<open>"0"\<close>, \<open>"1"\<close>, ...) before the others
  whatever the order of insertion; the list here does not, so for a body with such keys
  (they can only come from the custom JSON) it gives the fields, not their order.
\<close>

datatype jsval =
    Undefined
  | Null
  | JBool bool
  | JNum real
  | JStr string
  | JArr "jsval list"
  | JObj "(string \<times> jsval) list"

type_synonym jsobject = "(string \<times> jsval) list"

definition getProp :: "jsobject \<Rightarrow> string \<Rightarrow> jsval" where
  "getProp obj k = (case map_of obj k of None \<Rightarrow> Undefined | Some v \<Rightarrow> v)"

definition setProp :: "string \<Rightarrow> jsval \<Rightarrow> jsobject \<Rightarrow> jsobject" where
  "setProp k v obj = AList.update k v obj"

definition deleteProp :: "string \<Rightarrow> jsobject \<Rightarrow> jsobject" where
  "deleteProp k obj = AList.delete k obj"

definition objectAssign :: "jsobject \<Rightarrow> jsobject \<Rightarrow> jsobject" where
  "objectAssign target source = foldl (\<lambda>obj (k, v). setProp k v obj) target source"

definition objectKeys :: "jsobject \<Rightarrow> string list" where
  "objectKeys obj = map fst obj"

text \<open>The fields of \<open>JSON.stringify(obj)\<close>: the properties that are not \<open>undefined\<close>.\<close>

definition wireFields :: "jsobject \<Rightarrow> string list" where
  "wireFields obj = map fst (filter (\<lambda>(k, v). v \<noteq> Undefined) obj)"

fun jsTruthy :: "jsval \<Rightarrow> bool" where
  "jsTruthy Undefined = False"
| "jsTruthy Null = False"
| "jsTruthy (JBool b) = b"
| "jsTruthy (JNum x) = (x \<noteq> 0)"
| "jsTruthy (JStr s) = (s \<noteq> [])"
| "jsTruthy (JArr xs) = True"
| "jsTruthy (JObj ps) = True"

text \<open>Decimal digits of an array index, for the keys \<open>Object.assign\<close> copies from an array.\<close>

function decimal :: "nat \<Rightarrow> string" where
  "decimal n =
     (if n < 10 then [char_of (48 + n)]
      else decimal (n div 10) @ [char_of (48 + n mod 10)])"
  by pat_completeness auto
termination
  by (relation "measure id") auto

declare decimal.simps [simp del]

text \<open>
  The own enumerable properties that \<open>Object.assign\<close> copies from a source value: an
  object's properties, an array's elements and a string's characters under their
  indices, nothing from the other primitives.
\<close>

fun ownProps :: "jsval \<Rightarrow> jsobject" where
  "ownProps (JObj ps) = ps"
| "ownProps (JArr xs) = zip (map decimal [0 ..< length xs]) xs"
| "ownProps (JStr s) = zip (map decimal [0 ..< length s]) (map (\<lambda>c. JStr [c]) s)"
| "ownProps v = []"

section \<open>Request builder\<close>

text \<open>
  The settings \<open>sendMessage\<close> reads from \<open>config()\<close>, after \<open>toString()\<close> and
  \<open>Boolean(...)\<close>: a string setting is \<open>None\<close> when it is \<open>undefined\<close> or \<open>null\<close>.
  \<open>selectedModelName\<close> is the value of the model store's \<open>selectedModelName()\<close>.
\<close>

record config =
  apiKey :: "string option"
  apiBaseUrl :: "string option"
  systemMessage :: "string option"
  modelSelectorEnabled :: bool
  disableReasoningFormat :: bool
  selectedModelName :: "string option"

text \<open>
  A message in API form (\<open>ApiChatMessageData\<close>): the content is a string or an array
  of content parts. Messages in database form are converted before by
  \<open>convertMessageToChatServiceData\<close>, which is not modelled: the list given here is
  the list after that conversion.
\<close>

record api_message =
  msg_role :: string
  msg_content :: jsval

text \<open>The \<open>filter\<close> callback of \<open>normalizedMessages\<close>: empty system messages go.\<close>

definition keepMessage :: "api_message \<Rightarrow> bool" where
  "keepMessage msg =
     (if msg_role msg = ''system'' then
        (let c = (case msg_content msg of JStr s \<Rightarrow> s | _ \<Rightarrow> [])
         in length (trim c) > 0)
      else True)"

definition injectSystemMessage :: "config \<Rightarrow> api_message list \<Rightarrow> api_message list" where
  "injectSystemMessage currentConfig messages =
     (case map_option trim (systemMessage currentConfig) of
        None \<Rightarrow> messages
      | Some sm \<Rightarrow>
          if sm = [] then messages
          else (case messages of
                  [] \<Rightarrow> [\<lparr>msg_role = ''system'', msg_content = JStr sm\<rparr>]
                | m # ms \<Rightarrow>
                    if msg_role m = ''system'' then
                      (if msg_content m \<noteq> JStr sm
                       then \<lparr>msg_role = ''system'', msg_content = JStr sm\<rparr> # ms
                       else messages)
                    else \<lparr>msg_role = ''system'', msg_content = JStr sm\<rparr> # messages))"

definition messageValue :: "api_message \<Rightarrow> jsval" where
  "messageValue msg = JObj [(''role'', JStr (msg_role msg)), (''content'', msg_content msg)]"

text \<open>\<open>if (v !== undefined) requestBody[k] = v\<close>.\<close>

definition setIfDefined :: "string \<Rightarrow> jsval \<Rightarrow> jsobject \<Rightarrow> jsobject" where
  "setIfDefined k v body = (if v \<noteq> Undefined then setProp k v body else body)"

text \<open>The \<open>max_tokens\<close> / \<open>max_completion_tokens\<close> branch.\<close>

definition setMaxTokens :: "jsval \<Rightarrow> jsval \<Rightarrow> jsobject \<Rightarrow> jsobject" where
  "setMaxTokens max_tokens max_completion_tokens body =
     (if max_tokens \<noteq> Undefined then
        setProp ''max_tokens''
          (if max_tokens \<noteq> Null \<and> max_tokens \<noteq> JNum 0 then max_tokens else JNum (- 1)) body
      else if max_completion_tokens \<noteq> Undefined \<and> max_completion_tokens \<noteq> Null
              \<and> max_completion_tokens \<noteq> JNum 0 \<and> max_completion_tokens \<noteq> JNum (- 1)
      then setProp ''max_completion_tokens'' max_completion_tokens body
      else body)"

definition setReasoningEffort :: "jsval \<Rightarrow> jsobject \<Rightarrow> jsobject" where
  "setReasoningEffort reasoning_effort body =
     (if reasoning_effort \<noteq> Undefined \<and> reasoning_effort \<noteq> JStr ''none''
      then setProp ''reasoning_effort'' reasoning_effort body else body)"

definition setSamplers :: "jsval \<Rightarrow> jsobject \<Rightarrow> jsobject" where
  "setSamplers samplers body =
     (if samplers \<noteq> Undefined then
        setProp ''samplers''
          (case samplers of
             JStr s \<Rightarrow> JArr (map JStr (filter (\<lambda>x. trim x \<noteq> []) (jsSplit s '';'')))
           | _ \<Rightarrow> samplers) body
      else body)"

text \<open>
  The custom JSON merge. \<open>parseJson\<close> is the platform's \<open>JSON.parse\<close>: \<open>None\<close> when it
  throws, which the code logs and ignores.
\<close>

definition mergeCustom :: "(string \<Rightarrow> jsval option) \<Rightarrow> jsval \<Rightarrow> jsobject \<Rightarrow> jsobject" where
  "mergeCustom parseJson custom body =
     (if jsTruthy custom then
        (case custom of
           JStr s \<Rightarrow> (case parseJson s of
                       None \<Rightarrow> body
                     | Some customParams \<Rightarrow> objectAssign body (ownProps customParams))
         | _ \<Rightarrow> objectAssign body (ownProps custom))
      else body)"

text \<open>The parameters that are copied into the body under their own names when defined.\<close>

definition plainParams :: "string list" where
  "plainParams =
     [''max_context'', ''dynatemp_range'', ''dynatemp_exponent'', ''top_k'', ''top_p'',
      ''min_p'', ''xtc_probability'', ''xtc_threshold'', ''typ_p'', ''repeat_last_n'',
      ''repeat_penalty'', ''presence_penalty'', ''frequency_penalty'', ''dry_multiplier'',
      ''dry_base'', ''dry_allowed_length'', ''dry_penalty_last_n'']"

definition copyParams :: "jsobject \<Rightarrow> string list \<Rightarrow> jsobject \<Rightarrow> jsobject" where
  "copyParams options ks body = foldl (\<lambda>b k. setIfDefined k (getProp options k) b) body ks"

text \<open>
  \<open>requestBody\<close> as it stands before the \<open>try\<close> block of \<open>sendMessage\<close>. The options
  bag is a JavaScript object: destructuring an absent option gives \<open>undefined\<close>.
\<close>

definition buildRequestBody ::
  "config \<Rightarrow> (string \<Rightarrow> jsval option) \<Rightarrow> api_message list \<Rightarrow> jsobject \<Rightarrow> jsobject" where
  "buildRequestBody currentConfig parseJson messages options =
     (let normalizedMessages = filter keepMessage messages;
          processedMessages = injectSystemMessage currentConfig normalizedMessages;
          b0 = [(''messages'', JArr (map messageValue processedMessages)),
                (''stream'', getProp options ''stream'')];
          activeModel = (if modelSelectorEnabled currentConfig
                         then selectedModelName currentConfig else None);
          b1 = (case activeModel of
                  Some m \<Rightarrow>
                    if modelSelectorEnabled currentConfig \<and> m \<noteq> []
                    then setProp ''model'' (JStr m) b0 else b0
                | None \<Rightarrow> b0);
          b2 = setProp ''reasoning_format''
                 (JStr (if disableReasoningFormat currentConfig then ''none'' else ''auto'')) b1;
          b3 = setIfDefined ''temperature'' (getProp options ''temperature'') b2;
          b4 = setMaxTokens (getProp options ''max_tokens'')
                 (getProp options ''max_completion_tokens'') b3;
          b5 = setReasoningEffort (getProp options ''reasoning_effort'') b4;
          b6 = copyParams options plainParams b5;
          b7 = setSamplers (getProp options ''samplers'') b6;
          b8 = setIfDefined ''timings_per_token'' (getProp options ''timings_per_token'') b7
      in mergeCustom parseJson (getProp options ''custom'') b8)"

text \<open>
  The base URL as \<open>sendMessage\<close> normalises it: trimmed, \<open>'.'\<close> when empty, one
  trailing slash removed.
\<close>

definition normalizeBaseUrl :: "config \<Rightarrow> string" where
  "normalizeBaseUrl currentConfig =
     (let u0 = (case map_option trim (apiBaseUrl currentConfig) of
                  None \<Rightarrow> ''.''
                | Some u \<Rightarrow> if u = [] then ''.'' else u)
      in if u0 \<noteq> ''.'' \<and> endsWith u0 ''/'' then butlast u0 else u0)"

definition isExternalApi :: "string \<Rightarrow> bool" where
  "isExternalApi url =
     (url \<noteq> ''.'' \<and> \<not> startsWith url ''/''
      \<and> (startsWith url ''http://'' \<or> startsWith url ''https://''))"

definition chatEndpoint :: "string \<Rightarrow> string" where
  "chatEndpoint url =
     (if url = ''.'' then ''./v1/chat/completions'' else url @ ''/chat/completions'')"

definition standardKeys :: "string list" where
  "standardKeys =
     [''messages'', ''model'', ''stream'', ''temperature'', ''top_p'', ''presence_penalty'',
      ''max_tokens'', ''max_completion_tokens'', ''reasoning_effort'', ''stop'', ''tools'',
      ''tool_choice'', ''response_format'', ''n'', ''logit_bias'', ''user'']"

text \<open>
  The filter for external APIs: \<open>standardParams\<close> is read from the body, its
  \<open>undefined\<close> entries are deleted, the body is emptied and refilled from it, and a
  \<open>max_tokens\<close> of \<open>-1\<close> is deleted.
\<close>

definition filterExternal :: "jsobject \<Rightarrow> jsobject" where
  "filterExternal requestBody =
     (let standardParams = map (\<lambda>k. (k, getProp requestBody k)) standardKeys;
          defined = filter (\<lambda>(k, v). v \<noteq> Undefined) standardParams;
          emptied = foldl (\<lambda>obj k. deleteProp k obj) requestBody (objectKeys requestBody);
          refilled = objectAssign emptied defined
      in if getProp refilled ''max_tokens'' = JNum (- 1)
         then deleteProp ''max_tokens'' refilled else refilled)"

text \<open>The body handed to the first \<open>fetch\<close>.\<close>

definition builtRequest ::
  "config \<Rightarrow> (string \<Rightarrow> jsval option) \<Rightarrow> api_message list \<Rightarrow> jsobject \<Rightarrow> jsobject" where
  "builtRequest currentConfig parseJson messages options =
     (let requestBody = buildRequestBody currentConfig parseJson messages options
      in if isExternalApi (normalizeBaseUrl currentConfig)
         then filterExternal requestBody else requestBody)"

section \<open>The attempt loop of \<open>sendMessage\<close>\<close>

record js_error =
  err_name :: string
  err_message :: string

record response =
  status :: nat
  statusText :: string
  bodyText :: string

definition ok :: "response \<Rightarrow> bool" where
  "ok r = (200 \<le> status r \<and> status r \<le> 299)"

datatype fetch_result = Rejects js_error | Resolves response

definition maxAttempts :: nat where
  "maxAttempts = 3"

definition unknownNameMaxTokens :: string where
  \<open>unknownNameMaxTokens = ''unknown name "max_tokens"''\<close>

text \<open>Case 1 of the 400 handler: the server rejected \<open>reasoning_effort\<close>.\<close>

definition reasoningEffortRejected :: "string \<Rightarrow> jsobject \<Rightarrow> bool" where
  "reasoningEffortRejected errorText requestBody =
     ((jsIncludes errorText ''Thinking is not enabled''
       \<or> jsIncludes errorText ''reasoning_effort''
       \<or> jsIncludes errorText ''INVALID_ARGUMENT'')
      \<and> jsTruthy (getProp requestBody ''reasoning_effort''))"

text \<open>Case 2: the server rejected \<open>max_tokens\<close>.\<close>

definition maxTokensRejected :: "string \<Rightarrow> jsobject \<Rightarrow> bool" where
  "maxTokensRejected errorText requestBody =
     ((jsIncludes errorText ''max_tokens''
       \<or> jsIncludes errorText ''max_completion_tokens''
       \<or> jsIncludes errorText unknownNameMaxTokens)
      \<and> getProp requestBody ''max_tokens'' \<noteq> Undefined)"

definition dropReasoningEffort :: "string \<Rightarrow> jsobject \<Rightarrow> jsobject" where
  "dropReasoningEffort errorText requestBody =
     (if reasoningEffortRejected errorText requestBody
      then deleteProp ''reasoning_effort'' requestBody else requestBody)"

definition swapMaxTokens :: "string \<Rightarrow> jsobject \<Rightarrow> jsobject" where
  "swapMaxTokens errorText requestBody =
     (if maxTokensRejected errorText requestBody
      then deleteProp ''max_tokens''
             (setProp ''max_completion_tokens'' (getProp requestBody ''max_tokens'') requestBody)
      else requestBody)"

text \<open>The body after both cases, and whether \<open>retrying\<close> was set.\<close>

definition applyFixes :: "string \<Rightarrow> jsobject \<Rightarrow> jsobject" where
  "applyFixes errorText requestBody =
     swapMaxTokens errorText (dropReasoningEffort errorText requestBody)"

definition retrying :: "string \<Rightarrow> jsobject \<Rightarrow> bool" where
  "retrying errorText requestBody =
     (reasoningEffortRejected errorText requestBody
      \<or> maxTokensRejected errorText (dropReasoningEffort errorText requestBody))"

text \<open>
  The \<open>while (attempts < maxAttempts)\<close> loop. The server is a function of the attempt
  number and the body sent; the first argument counts the attempts that are left. The
  result is what \<open>fetch\<close> last gave (or its rejection), the body as the loop leaves it,
  and the bodies sent, in order.
\<close>

fun attemptLoop ::
  "(nat \<Rightarrow> jsobject \<Rightarrow> fetch_result) \<Rightarrow> nat \<Rightarrow> nat \<Rightarrow> jsobject \<Rightarrow> response option
     \<Rightarrow> (js_error + response option) \<times> jsobject \<times> jsobject list" where
  "attemptLoop server 0 attempts requestBody resp = (Inr resp, requestBody, [])"
| "attemptLoop server (Suc left) attempts requestBody resp =
     (case server (Suc attempts) requestBody of
        Rejects e \<Rightarrow> (Inl e, requestBody, [requestBody])
      | Resolves r \<Rightarrow>
          if ok r then (Inr (Some r), requestBody, [requestBody])
          else if status r = 400 then
            (let errorText = bodyText r;
                 fixed = applyFixes errorText requestBody
             in if retrying errorText requestBody then
                  (case attemptLoop server left (Suc attempts) fixed (Some r) of
                     (out, final, sent) \<Rightarrow> (out, final, requestBody # sent))
                else (Inr (Some r), fixed, [requestBody]))
          else (Inr (Some r), requestBody, [requestBody]))"

definition fetchWithRetry ::
  "(nat \<Rightarrow> jsobject \<Rightarrow> fetch_result) \<Rightarrow> jsobject
     \<Rightarrow> (js_error + response option) \<times> jsobject \<times> jsobject list" where
  "fetchWithRetry server requestBody = attemptLoop server maxAttempts 0 requestBody None"

section \<open>Stream decoder\<close>

record timings =
  prompt_n :: "int option"
  prompt_ms :: "real option"
  predicted_n :: "int option"
  predicted_ms :: "real option"
  cache_n :: "int option"

record usage =
  prompt_tokens :: "int option"
  completion_tokens :: "int option"
  total_tokens :: "int option"

record delta =
  d_content :: "string option"
  d_reasoning :: "string option"
  d_reasoning_content :: "string option"
  d_tool_calls :: "tool_call_delta list option"
  d_model :: "string option"

record stream_choice =
  sc_delta :: "delta option"
  sc_message_model :: "string option"
  sc_finish_reason :: "string option"

text \<open>
  A parsed stream chunk. \<open>ch_choices\<close> is \<open>None\<close> when the parsed value has no
  \<open>choices\<close> array: reading \<open>parsed.choices[0]\<close> then throws, inside the \<open>try\<close> of the
  line.
\<close>

record stream_chunk =
  ch_object :: "string option"
  ch_model :: "string option"
  ch_choices :: "stream_choice list option"
  ch_timings :: "timings option"
  ch_prompt_progress :: jsval
  ch_usage :: "usage option"

text \<open>
  What the consumer sees, in order: the callbacks, and the updates of the live
  processing state. A serialized tool-call list stands for its \<open>JSON.stringify\<close> text.
\<close>

datatype callback =
    OnChunk string
  | OnReasoningChunk string
  | OnToolCallChunk "tool_call list"
  | OnModel string
  | OnFirstValidChunk
  | OnComplete string "string option" "timings option" "tool_call list option"
  | OnError js_error
  | UpdateProcessingState "timings option" jsval

record stream_state =
  aggregatedContent :: string
  fullReasoningContent :: string
  aggregatedToolCalls :: "tool_call list"
  lastTimings :: "timings option"
  streamFinished :: bool
  modelEmitted :: bool
  firstValidChunkEmitted :: bool
  toolCallIndexOffset :: nat
  hasOpenToolCallBatch :: bool
  thinkBuffer :: string
  insideThinkTag :: bool
  firstTokenTime :: "int option"
  usageData :: "usage option"
  chunk :: string
  aborted :: bool
  calls :: "callback list"

definition initialState :: "bool \<Rightarrow> stream_state" where
  "initialState ab =
     \<lparr>aggregatedContent = [], fullReasoningContent = [], aggregatedToolCalls = [],
      lastTimings = None, streamFinished = False, modelEmitted = False,
      firstValidChunkEmitted = False, toolCallIndexOffset = 0,
      hasOpenToolCallBatch = False, thinkBuffer = [], insideThinkTag = False,
      firstTokenTime = None, usageData = None, chunk = [], aborted = ab, calls = []\<rparr>"

definition emit :: "callback \<Rightarrow> stream_state \<Rightarrow> stream_state" where
  "emit c st = st\<lparr>calls := calls st @ [c]\<rparr>"

definition finalizeOpenToolCallBatch :: "stream_state \<Rightarrow> stream_state" where
  "finalizeOpenToolCallBatch st =
     (if \<not> hasOpenToolCallBatch st then st
      else st\<lparr>toolCallIndexOffset := length (aggregatedToolCalls st),
              hasOpenToolCallBatch := False\<rparr>)"

definition processToolCallDelta ::
  "tool_call_delta list option \<Rightarrow> stream_state \<Rightarrow> stream_state" where
  "processToolCallDelta toolCalls st =
     (case toolCalls of
        None \<Rightarrow> st
      | Some tcs \<Rightarrow>
          if tcs = [] then st
          else
            (let merged = mergeToolCallDeltas (aggregatedToolCalls st) tcs (toolCallIndexOffset st);
                 st1 = st\<lparr>aggregatedToolCalls := merged\<rparr>
             in if merged = [] then st1
                else
                  (let st2 = st1\<lparr>hasOpenToolCallBatch := True\<rparr>
                   in if \<not> aborted st2 then emit (OnToolCallChunk merged) st2 else st2)))"

text \<open>The first \<open>if\<close> of the think-tag scanner: an opening tag seen while outside.\<close>

definition openThink :: "stream_state \<Rightarrow> stream_state" where
  "openThink st =
     (if jsIncludes (thinkBuffer st) ''<think>'' \<and> \<not> insideThinkTag st then
        (let parts = jsSplit (thinkBuffer st) ''<think>'';
             st1 = st\<lparr>insideThinkTag := True\<rparr>;
             st2 = (if partOrEmpty parts 0 \<noteq> [] \<and> \<not> aborted st1
                    then (emit (OnChunk (partOrEmpty parts 0)) st1)
                           \<lparr>aggregatedContent := aggregatedContent st1 @ partOrEmpty parts 0\<rparr>
                    else st1)
         in st2\<lparr>thinkBuffer := partOrEmpty parts 1\<rparr>)
      else st)"

text \<open>The second \<open>if\<close> / \<open>else if\<close> / \<open>else\<close>: a closing tag, still inside, or plain content.\<close>

definition closeThink :: "string \<Rightarrow> stream_state \<Rightarrow> stream_state" where
  "closeThink content st =
     (if insideThinkTag st \<and> jsIncludes (thinkBuffer st) ''</think>'' then
        (let parts = jsSplit (thinkBuffer st) ''</think>'';
             thinkContent = partOrEmpty parts 0;
             st1 = (if thinkContent \<noteq> [] \<and> \<not> aborted st
                    then (emit (OnReasoningChunk thinkContent) st)
                           \<lparr>fullReasoningContent := fullReasoningContent st @ thinkContent\<rparr>
                    else st);
             processedContent = partOrEmpty parts 1;
             st2 = st1\<lparr>thinkBuffer := [], insideThinkTag := False\<rparr>
         in if processedContent \<noteq> [] \<and> \<not> aborted st2
            then (emit (OnChunk processedContent) st2)
                   \<lparr>aggregatedContent := aggregatedContent st2 @ processedContent\<rparr>
            else st2)
      else if insideThinkTag st then st
      else
        (let st1 = st\<lparr>aggregatedContent := aggregatedContent st @ content\<rparr>
         in if \<not> aborted st1 then emit (OnChunk content) st1 else st1))"

text \<open>\<open>if (content) { ... }\<close>.\<close>

definition processContent :: "string option \<Rightarrow> stream_state \<Rightarrow> stream_state" where
  "processContent content st =
     (case content of
        None \<Rightarrow> st
      | Some c \<Rightarrow>
          if c = [] then st
          else
            (let st1 = finalizeOpenToolCallBatch st;
                 st2 = st1\<lparr>thinkBuffer := thinkBuffer st1 @ c\<rparr>
             in closeThink c (openThink st2)))"

text \<open>\<open>if (reasoningContent) { ... }\<close>.\<close>

definition processReasoning :: "string option \<Rightarrow> stream_state \<Rightarrow> stream_state" where
  "processReasoning reasoningContent st =
     (case reasoningContent of
        None \<Rightarrow> st
      | Some r \<Rightarrow>
          if r = [] then st
          else
            (let st1 = finalizeOpenToolCallBatch st;
                 st2 = st1\<lparr>fullReasoningContent := fullReasoningContent st1 @ r\<rparr>
             in if \<not> aborted st2 then emit (OnReasoningChunk r) st2 else st2))"

text \<open>\<open>getTrimmedString\<close> of \<open>extractModelName\<close>.\<close>

definition getTrimmedString :: "string option \<Rightarrow> string option" where
  "getTrimmedString v =
     (case v of None \<Rightarrow> None | Some s \<Rightarrow> if trim s \<noteq> [] then Some (trim s) else None)"

text \<open>
  \<open>extractModelName\<close>, given the three places it looks at: the root, the first
  choice's delta and the first choice's message (the latter two \<open>None\<close> when there is no
  first choice).
\<close>

definition extractModelName ::
  "string option \<Rightarrow> (string option \<times> string option) option \<Rightarrow> string option" where
  "extractModelName rootModel firstChoice =
     (case getTrimmedString rootModel of
        Some m \<Rightarrow> Some m
      | None \<Rightarrow>
          (case firstChoice of
             None \<Rightarrow> None
           | Some (deltaModel, messageModel) \<Rightarrow>
               (case getTrimmedString deltaModel of
                  Some m \<Rightarrow> Some m
                | None \<Rightarrow> getTrimmedString messageModel)))"

definition chunkModelName :: "stream_chunk \<Rightarrow> string option" where
  "chunkModelName parsed =
     extractModelName (ch_model parsed)
       (case ch_choices parsed of
          None \<Rightarrow> None
        | Some [] \<Rightarrow> None
        | Some (c # cs) \<Rightarrow>
            Some (case sc_delta c of None \<Rightarrow> None | Some d \<Rightarrow> d_model d, sc_message_model c))"

text \<open>The one-time "first valid chunk" notification.\<close>

definition emitFirstValidChunk :: "stream_chunk \<Rightarrow> stream_state \<Rightarrow> stream_state" where
  "emitFirstValidChunk parsed st =
     (if \<not> firstValidChunkEmitted st \<and> ch_object parsed = Some ''chat.completion.chunk'' then
        (let st1 = st\<lparr>firstValidChunkEmitted := True\<rparr>
         in if \<not> aborted st1 then emit OnFirstValidChunk st1 else st1)
      else st)"

text \<open>Truthiness of a time stamp that may be unset: a number other than 0.\<close>

fun timeTruthy :: "int option \<Rightarrow> bool" where
  "timeTruthy None = False"
| "timeTruthy (Some t) = (t \<noteq> 0)"

text \<open>\<open>a || b\<close> on optional strings.\<close>

definition orElse :: "string option \<Rightarrow> string option \<Rightarrow> string option" where
  "orElse a b = (if truthy a then a else b)"

text \<open>The model name is reported once, by the first chunk that carries one.\<close>

definition reportModel :: "string option \<Rightarrow> stream_state \<Rightarrow> stream_state" where
  "reportModel chunkModel st =
     (case chunkModel of
        None \<Rightarrow> st
      | Some m \<Rightarrow>
          if \<not> modelEmitted st then emit (OnModel m) (st\<lparr>modelEmitted := True\<rparr>) else st)"

text \<open>The time of the first token; \<open>now\<close> is the clock while the line is processed.\<close>

definition trackFirstToken ::
  "int \<Rightarrow> string option \<Rightarrow> string option \<Rightarrow> stream_state \<Rightarrow> stream_state" where
  "trackFirstToken now content reasoningContent st =
     (if (truthy content \<or> truthy reasoningContent) \<and> \<not> timeTruthy (firstTokenTime st)
      then st\<lparr>firstTokenTime := Some now\<rparr> else st)"

text \<open>Usage counts are kept from a chunk that also has a finish reason.\<close>

definition captureUsage :: "usage option \<Rightarrow> string option \<Rightarrow> stream_state \<Rightarrow> stream_state" where
  "captureUsage u finishReason st =
     (case u of
        None \<Rightarrow> st
      | Some v \<Rightarrow> if truthy finishReason then st\<lparr>usageData := Some v\<rparr> else st)"

text \<open>Timings and prompt progress go to the live processing state; timings are kept.\<close>

definition updateTimings :: "timings option \<Rightarrow> jsval \<Rightarrow> stream_state \<Rightarrow> stream_state" where
  "updateTimings t promptProgress st =
     (if t \<noteq> None \<or> jsTruthy promptProgress then
        (let s = emit (UpdateProcessingState t promptProgress) st
         in case t of None \<Rightarrow> s | Some v \<Rightarrow> s\<lparr>lastTimings := Some v\<rparr>)
      else st)"

text \<open>\<open>parsed.choices[0]?.delta\<close> and \<open>parsed.choices[0]?.finish_reason\<close>.\<close>

definition firstDelta :: "stream_choice list \<Rightarrow> delta option" where
  "firstDelta cs = (case cs of [] \<Rightarrow> None | c # rest \<Rightarrow> sc_delta c)"

definition firstFinishReason :: "stream_choice list \<Rightarrow> string option" where
  "firstFinishReason cs = (case cs of [] \<Rightarrow> None | c # rest \<Rightarrow> sc_finish_reason c)"

text \<open>
  The body of the \<open>try\<close> for one parsed line. Without a \<open>choices\<close> array the read of
  \<open>parsed.choices[0]\<close> throws after the first-valid-chunk notification, and the rest of
  the line is skipped.
\<close>

definition processChunk :: "int \<Rightarrow> stream_chunk \<Rightarrow> stream_state \<Rightarrow> stream_state" where
  "processChunk now parsed st =
     (let st1 = emitFirstValidChunk parsed st
      in case ch_choices parsed of
           None \<Rightarrow> st1
         | Some cs \<Rightarrow>
             (let dl = firstDelta cs;
                  content = (case dl of None \<Rightarrow> None | Some d \<Rightarrow> d_content d);
                  reasoningContent =
                    (case dl of None \<Rightarrow> None
                     | Some d \<Rightarrow> orElse (d_reasoning d) (d_reasoning_content d));
                  toolCalls = (case dl of None \<Rightarrow> None | Some d \<Rightarrow> d_tool_calls d);
                  finishReason = firstFinishReason cs;
                  st2 = reportModel (chunkModelName parsed) st1;
                  st3 = trackFirstToken now content reasoningContent st2;
                  st4 = captureUsage (ch_usage parsed) finishReason st3;
                  st5 = updateTimings (ch_timings parsed) (ch_prompt_progress parsed) st4
              in processToolCallDelta toolCalls
                   (processReasoning reasoningContent (processContent content st5))))"

text \<open>
  One line of the \<open>for\<close> loop. \<open>parse\<close> is the platform's \<open>JSON.parse\<close> read at the
  chunk type: \<open>None\<close> when it throws or gives \<open>null\<close>; the error is logged and the line
  skipped.
\<close>

definition processLine ::
  "(string \<Rightarrow> stream_chunk option) \<Rightarrow> int \<Rightarrow> stream_state \<Rightarrow> string \<Rightarrow> stream_state" where
  "processLine parse now st line =
     (if aborted st then st
      else if startsWith line ''data: '' then
        (let data = drop 6 line
         in if data = ''[DONE]'' then st\<lparr>streamFinished := True\<rparr>
            else (case parse data of
                    None \<Rightarrow> st
                  | Some parsed \<Rightarrow> processChunk now parsed st))
      else st)"

definition newline :: string where
  "newline = [CHR 0x0A]"

text \<open>
  One decoded read: the text joins the buffered partial line, the complete lines are
  processed and the last piece is buffered.
\<close>

definition processText ::
  "(string \<Rightarrow> stream_chunk option) \<Rightarrow> int \<Rightarrow> string \<Rightarrow> stream_state \<Rightarrow> stream_state" where
  "processText parse now val st =
     (let lines = jsSplit (chunk st @ val) newline;
          st1 = st\<lparr>chunk := (if lines = [] then [] else last lines)\<rparr>
      in foldl (processLine parse now) st1 (butlast lines))"

text \<open>The timing snapshot derived from usage counts at the end of a stream.\<close>

definition streamUsageTimings :: "usage \<Rightarrow> int \<Rightarrow> int option \<Rightarrow> int \<Rightarrow> timings" where
  "streamUsageTimings u startTime firstToken endTime =
     (let totalMs = endTime - startTime;
          promptMs = (case firstToken of
                        None \<Rightarrow> \<lfloor>real_of_int totalMs * 0.1\<rfloor>
                      | Some t \<Rightarrow> if t \<noteq> 0 then t - startTime
                                  else \<lfloor>real_of_int totalMs * 0.1\<rfloor>);
          predictedMs = (case firstToken of
                           None \<Rightarrow> \<lfloor>real_of_int totalMs * 0.9\<rfloor>
                         | Some t \<Rightarrow> if t \<noteq> 0 then endTime - t
                                     else \<lfloor>real_of_int totalMs * 0.9\<rfloor>)
      in \<lparr>prompt_n = prompt_tokens u, prompt_ms = Some (real_of_int promptMs),
          predicted_n = completion_tokens u, predicted_ms = Some (real_of_int predictedMs),
          cache_n = None\<rparr>)"

text \<open>What follows the \<open>while\<close> loop inside the \<open>try\<close>.\<close>

definition finishStream :: "int \<Rightarrow> int \<Rightarrow> stream_state \<Rightarrow> stream_state" where
  "finishStream startTime endTime st =
     (if aborted st then st
      else if streamFinished st then
        (let st1 = finalizeOpenToolCallBatch st;
             finalToolCalls = (if aggregatedToolCalls st1 \<noteq> []
                               then Some (aggregatedToolCalls st1) else None);
             st2 = (case usageData st1 of
                      None \<Rightarrow> st1
                    | Some u \<Rightarrow>
                        if lastTimings st1 = None
                        then st1\<lparr>lastTimings :=
                               Some (streamUsageTimings u startTime (firstTokenTime st1) endTime)\<rparr>
                        else st1)
         in emit (OnComplete (aggregatedContent st2)
                    (if fullReasoningContent st2 = [] then None
                     else Some (fullReasoningContent st2))
                    (lastTimings st2) finalToolCalls) st2)
      else st)"

text \<open>
  What one \<open>await reader.read()\<close> gives: the state of the abort signal once the read
  returns, the clock then, and the result. The text of a value is the decoder's output
  for its bytes. The signal is taken to change only while a read is awaited: the
  consumer's callbacks do not call \<open>abort\<close>. The lines of one read are processed in one
  run without suspension; every \<open>Date.now()\<close> of that run, and the one of the
  finalisation after the read that reports the end, is taken to give the read's clock.
\<close>

datatype read_result = ReadDone | ReadValue string | ReadFails js_error

record read_event =
  ev_aborted :: bool
  ev_now :: int
  ev_result :: read_result

text \<open>
  The \<open>while (true)\<close> loop with what follows it. The result is the error thrown, if
  any, and the final state; \<open>None\<close> when the reads run out with the stream neither done
  nor aborted: the call stays suspended. The signal changes only while a read is
  awaited.
\<close>

fun readLoop ::
  "(string \<Rightarrow> stream_chunk option) \<Rightarrow> int \<Rightarrow> read_event list \<Rightarrow> stream_state
     \<Rightarrow> (js_error option \<times> stream_state) option" where
  "readLoop parse startTime [] st = (if aborted st then Some (None, st) else None)"
| "readLoop parse startTime (ev # evs) st =
     (if aborted st then Some (None, st)
      else
        (let st1 = st\<lparr>aborted := ev_aborted ev\<rparr>
         in case ev_result ev of
              ReadFails e \<Rightarrow> Some (Some e, emit (OnError e) st1)
            | ReadDone \<Rightarrow> Some (None, finishStream startTime (ev_now ev) st1)
            | ReadValue val \<Rightarrow>
                if aborted st1 then Some (None, st1)
                else
                  (let st2 = processText parse (ev_now ev) val st1
                   in if aborted st2 then Some (None, st2)
                      else readLoop parse startTime evs st2)))"

definition noResponseBody :: js_error where
  "noResponseBody = \<lparr>err_name = ''Error'', err_message = ''No response body''\<rparr>"

text \<open>
  \<open>handleStreamResponse\<close>: the body's reader is missing (\<open>None\<close>) or gives the reads
  listed. The result is the error thrown, if any, and the consumer's trace.
\<close>

definition handleStreamResponse ::
  "(string \<Rightarrow> stream_chunk option) \<Rightarrow> int \<Rightarrow> bool \<Rightarrow> read_event list option
     \<Rightarrow> (js_error option \<times> callback list) option" where
  "handleStreamResponse parse startTime initiallyAborted body =
     (case body of
        None \<Rightarrow> Some (Some noResponseBody, [])
      | Some reads \<Rightarrow>
          map_option (\<lambda>(e, st). (e, calls st))
            (readLoop parse startTime reads (initialState initiallyAborted)))"

section \<open>Non-streaming responses\<close>

text \<open>
  \<open>parseThinkTags\<close>. The regular expression \<open>/<think>([\s\S]*?)<\/think>/g\<close> matches
  from the leftmost opening tag to the first closing tag after it, then goes on behind
  the match. \<open>thinkSpans\<close> gives the matches and the content without them.
\<close>

function thinkSpans :: "string \<Rightarrow> string list \<times> string" where
  "thinkSpans s =
     (case splitFirst ''<think>'' s of
        None \<Rightarrow> ([], s)
      | Some (before, rest) \<Rightarrow>
          (case splitFirst ''</think>'' rest of
             None \<Rightarrow> ([], s)
           | Some (inner, after) \<Rightarrow>
               (case thinkSpans after of
                  (ms, c) \<Rightarrow> ((''<think>'' @ inner @ ''</think>'') # ms, before @ c))))"
  by pat_completeness auto
termination
proof (relation "measure length", goal_cases)
  case 1
  show ?case by simp
next
  case (2 s x2 before rest x2a inner after)
  have "length after < length rest"
    using 2(4) 2(3) splitFirst_shorter [of "''</think>''" rest inner after] by simp
  moreover have "length rest < length s"
    using 2(2) 2(1) splitFirst_shorter [of "''<think>''" s before rest] by simp
  ultimately show ?case by simp
qed

declare thinkSpans.simps [simp del]

text \<open>\<open>match.replace(/<\/?think>/g, '')\<close>: every tag is cut out, left to right.\<close>

function stripTags :: "string \<Rightarrow> string" where
  "stripTags s =
     (if s = [] then []
      else if prefix ''<think>'' s then stripTags (drop 7 s)
      else if prefix ''</think>'' s then stripTags (drop 8 s)
      else hd s # stripTags (tl s))"
  by pat_completeness auto
termination
  by (relation "measure length") auto

declare stripTags.simps [simp del]

fun joinWith :: "string \<Rightarrow> string list \<Rightarrow> string" where
  "joinWith sep [] = []"
| "joinWith sep [x] = x"
| "joinWith sep (x # y # ys) = x @ sep @ joinWith sep (y # ys)"

definition parseThinkTags :: "string \<Rightarrow> string \<times> string option" where
  "parseThinkTags content =
     (case thinkSpans content of
        (matches, cleaned) \<Rightarrow>
          if matches = [] then (content, None)
          else (trim cleaned,
                Some (joinWith (newline @ newline) (map (\<lambda>m. trim (stripTags m)) matches))))"

record response_message =
  m_content :: "string option"
  m_reasoning :: "string option"
  m_reasoning_content :: "string option"
  m_tool_calls :: "tool_call_delta list option"
  m_model :: "string option"

record response_choice =
  rc_message :: "response_message option"
  rc_delta_model :: "string option"

text \<open>
  What \<open>JSON.parse\<close> gives for a response body. The type annotation
  \<open>ApiChatCompletionResponse\<close> is not checked when the code runs, so the value need not
  have a \<open>choices\<close> array: \<open>cr_choices\<close> is \<open>None\<close> when \<open>data.choices\<close> is
  \<open>undefined\<close> or \<open>null\<close> (as for the body \<open>{}\<close>), and also when \<open>data\<close> itself is
  \<open>null\<close>; it is the list of the array's elements otherwise.
\<close>

record completion_response =
  cr_model :: "string option"
  cr_choices :: "response_choice list option"
  cr_usage :: "usage option"

text \<open>
  \<open>extractModelName(data)\<close> looks at \<open>choices[0]\<close> only behind
  \<open>Array.isArray(root.choices)\<close>, so it returns for a value without the array too.
\<close>

definition responseModelName :: "completion_response \<Rightarrow> string option" where
  "responseModelName data =
     extractModelName (cr_model data)
       (case cr_choices data of
          None \<Rightarrow> None
        | Some [] \<Rightarrow> None
        | Some (c # cs) \<Rightarrow>
            Some (rc_delta_model c,
                  case rc_message c of None \<Rightarrow> None | Some m \<Rightarrow> m_model m))"

definition noResponseError :: js_error where
  "noResponseError =
     \<lparr>err_name = ''Error'',
      err_message = ''No response received from server. Please try again.''\<rparr>"

text \<open>
  The error of reading \<open>data.choices[0]\<close> when \<open>data.choices\<close> is \<open>undefined\<close>: a
  \<open>TypeError\<close>. Its message is the engine's; this is the text of V8 for the body \<open>{}\<close>.
\<close>

definition choicesTypeError :: js_error where
  "choicesTypeError =
     \<lparr>err_name = ''TypeError'',
      err_message = ''Cannot read properties of undefined (reading '' @ [CHR 0x27]
                    @ ''0'' @ [CHR 0x27] @ '')''\<rparr>"

text \<open>
  The timing snapshot of the non-streaming path: the 10% / 90% split of the elapsed time.
  \<open>Math.floor\<close> is taken of the exact product here, where the code takes it of the
  product rounded to a double; the two agree for every elapsed time a request can have
  (they part only above some \<open>10\<^sup>1\<^sup>5\<close> milliseconds).
\<close>

definition usageTimings :: "usage \<Rightarrow> int \<Rightarrow> int \<Rightarrow> timings" where
  "usageTimings u startTime endTime =
     (let totalMs = endTime - startTime;
          promptMs = \<lfloor>real_of_int totalMs * 0.1\<rfloor>;
          predictedMs = \<lfloor>real_of_int totalMs * 0.9\<rfloor>
      in \<lparr>prompt_n = prompt_tokens u, prompt_ms = Some (real_of_int promptMs),
          predicted_n = completion_tokens u, predicted_ms = Some (real_of_int predictedMs),
          cache_n = None\<rparr>)"

text \<open>
  What \<open>handleNonStreamResponse\<close> reads from the parsed response:
  \<open>data.choices[0]?.message\<close>, its \<open>content || ''\<close>, its
  \<open>reasoning || reasoning_content\<close> and its \<open>tool_calls\<close>.
\<close>

definition firstMessage :: "completion_response \<Rightarrow> response_message option" where
  "firstMessage data =
     (case cr_choices data of
        None \<Rightarrow> None
      | Some [] \<Rightarrow> None
      | Some (c # cs) \<Rightarrow> rc_message c)"

definition responseContent :: "completion_response \<Rightarrow> string" where
  "responseContent data =
     (case firstMessage data of
        None \<Rightarrow> []
      | Some m \<Rightarrow> (case m_content m of None \<Rightarrow> [] | Some c \<Rightarrow> c))"

definition responseReasoning :: "completion_response \<Rightarrow> string option" where
  "responseReasoning data =
     (case firstMessage data of
        None \<Rightarrow> None
      | Some m \<Rightarrow> orElse (m_reasoning m) (m_reasoning_content m))"

definition responseToolCalls :: "completion_response \<Rightarrow> tool_call_delta list option" where
  "responseToolCalls data =
     (case firstMessage data of None \<Rightarrow> None | Some m \<Rightarrow> m_tool_calls m)"

text \<open>
  The rest of the \<open>try\<close> block once \<open>data.choices[0]\<close> has been read, with the
  callbacks \<open>calls1\<close> made before.
\<close>

definition nonStreamBody ::
  "completion_response \<Rightarrow> callback list \<Rightarrow> int option \<Rightarrow> int
     \<Rightarrow> (js_error + string) \<times> callback list" where
  "nonStreamBody data calls1 startTime endTime =
     (let content0 = responseContent data;
          reasoning0 = responseReasoning data;
          toolCalls = responseToolCalls data;
          parsed = parseThinkTags content0;
          content = (if content0 \<noteq> [] \<and> \<not> truthy reasoning0
                     then fst parsed else content0);
          reasoningContent = (if content0 \<noteq> [] \<and> \<not> truthy reasoning0
                              then orElse (snd parsed) reasoning0 else reasoning0);
          serializedToolCalls =
            (case toolCalls of
               None \<Rightarrow> None
             | Some tcs \<Rightarrow>
                 if tcs \<noteq> [] \<and> mergeToolCallDeltas [] tcs 0 \<noteq> []
                 then Some (mergeToolCallDeltas [] tcs 0) else None);
          calls2 = (case serializedToolCalls of
                      None \<Rightarrow> calls1
                    | Some merged \<Rightarrow> calls1 @ [OnToolCallChunk merged])
      in if trim content = [] \<and> serializedToolCalls = None
         then (Inl noResponseError, calls2)
         else
           (let timings = (case cr_usage data of
                             None \<Rightarrow> None
                           | Some u \<Rightarrow>
                               (case startTime of
                                  None \<Rightarrow> None
                                | Some t0 \<Rightarrow>
                                    if t0 \<noteq> 0
                                    then Some (usageTimings u t0 endTime)
                                    else None))
            in (Inr content,
                calls2 @ [OnComplete content reasoningContent timings
                            serializedToolCalls])))"

text \<open>
  The \<open>try\<close> block of \<open>handleNonStreamResponse\<close>: the value returned or the error
  thrown, with the callbacks made so far. \<open>textResult\<close> is what
  \<open>await response.text()\<close> gives, \<open>parse\<close> the platform's \<open>JSON.parse\<close> read at the
  response type, \<open>endTime\<close> the clock after parsing. Reading
  \<open>data.choices[0]\<close> comes after the \<open>onModel\<close> callback and throws when there is no
  \<open>choices\<close> array.
\<close>

definition nonStreamTry ::
  "(string \<Rightarrow> js_error + completion_response) \<Rightarrow> js_error + string \<Rightarrow> int option \<Rightarrow> int
     \<Rightarrow> (js_error + string) \<times> callback list" where
  "nonStreamTry parse textResult startTime endTime =
     (case textResult of
        Inl e \<Rightarrow> (Inl e, [])
      | Inr responseText \<Rightarrow>
          if trim responseText = [] then (Inl noResponseError, [])
          else
            (case parse responseText of
               Inl e \<Rightarrow> (Inl e, [])
             | Inr data \<Rightarrow>
                 (let calls1 = (case responseModelName data of
                                  None \<Rightarrow> []
                                | Some m \<Rightarrow> [OnModel m])
                  in if cr_choices data = None then (Inl choicesTypeError, calls1)
                     else nonStreamBody data calls1 startTime endTime)))"

text \<open>\<open>handleNonStreamResponse\<close>: the \<open>catch\<close> block calls \<open>onError\<close> and throws again.\<close>

definition handleNonStreamResponse ::
  "(string \<Rightarrow> js_error + completion_response) \<Rightarrow> js_error + string \<Rightarrow> int option \<Rightarrow> int
     \<Rightarrow> (js_error + string) \<times> callback list" where
  "handleNonStreamResponse parse textResult startTime endTime =
     (case nonStreamTry parse textResult startTime endTime of
        (Inl err, cs) \<Rightarrow> (Inl err, cs @ [OnError err])
      | (Inr content, cs) \<Rightarrow> (Inr content, cs))"

section \<open>Request lifecycle and cancellation\<close>

text \<open>
  \<open>abortControllers\<close> is a \<open>Map\<close> from request keys to \<open>AbortController\<close> objects. A
  controller is a reference (a number); the store records which controllers' signals
  are aborted, so a request that holds its controller's signal sees an abort made
  through the map. \<open>nextRef\<close> is the reference the next \<open>new AbortController()\<close> gets.
\<close>

record registry =
  controllers :: "(string \<times> nat) list"
  abortedRefs :: "nat set"
  nextRef :: nat

definition abortRef :: "nat \<Rightarrow> registry \<Rightarrow> registry" where
  "abortRef c reg = reg\<lparr>abortedRefs := insert c (abortedRefs reg)\<rparr>"

text \<open>\<open>conversationId || 'default'\<close>.\<close>

definition requestKey :: "string option \<Rightarrow> string" where
  "requestKey conversationId =
     (case conversationId of
        None \<Rightarrow> ''default''
      | Some cid \<Rightarrow> if cid \<noteq> [] then cid else ''default'')"

text \<open>
  The head of \<open>sendMessage\<close>: an outstanding controller under the key is aborted, a new
  one takes its place.
\<close>

definition registerRequest :: "string \<Rightarrow> registry \<Rightarrow> nat \<times> registry" where
  "registerRequest requestId reg =
     (let reg1 = (case map_of (controllers reg) requestId of
                    None \<Rightarrow> reg
                  | Some c \<Rightarrow> abortRef c reg);
          c = nextRef reg1
      in (c, reg1\<lparr>controllers := AList.update requestId c (controllers reg1),
                  nextRef := Suc c\<rparr>))"

text \<open>The \<open>finally\<close> block of \<open>sendMessage\<close>.\<close>

definition releaseRequest :: "string \<Rightarrow> registry \<Rightarrow> registry" where
  "releaseRequest requestId reg =
     reg\<lparr>controllers := AList.delete requestId (controllers reg)\<rparr>"

definition abort :: "string option \<Rightarrow> registry \<Rightarrow> registry" where
  "abort conversationId reg =
     (let abortAll = (foldr abortRef (map snd (controllers reg)) reg)\<lparr>controllers := []\<rparr>
      in case conversationId of
           None \<Rightarrow> abortAll
         | Some cid \<Rightarrow>
             if cid \<noteq> [] then
               (case map_of (controllers reg) cid of
                  None \<Rightarrow> reg
                | Some c \<Rightarrow>
                    (abortRef c reg)\<lparr>controllers := AList.delete cid (controllers reg)\<rparr>)
             else abortAll)"

text \<open>
  What other callers do to the map while a call of \<open>sendMessage\<close> is suspended at an
  \<open>await\<close>: a call of \<open>abort\<close>, the head of another \<open>sendMessage\<close>, or the \<open>finally\<close>
  block of another \<open>sendMessage\<close>.
\<close>

datatype registry_op =
    AbortCall "string option"
  | SendEnter "string option"
  | SendSettle "string option"

fun applyOp :: "registry \<Rightarrow> registry_op \<Rightarrow> registry" where
  "applyOp reg (AbortCall cid) = abort cid reg"
| "applyOp reg (SendEnter cid) = snd (registerRequest (requestKey cid) reg)"
| "applyOp reg (SendSettle cid) = releaseRequest (requestKey cid) reg"

section \<open>\<open>sendMessage\<close>\<close>

text \<open>
  The body of an error response as \<open>parseErrorResponse\<close> reads it:
  \<open>errorData.error?.message\<close> and \<open>errorData.message\<close>.
\<close>

record api_error_body =
  e_error_message :: "string option"
  e_message :: "string option"

definition parseErrorResponse ::
  "(string \<Rightarrow> api_error_body option) \<Rightarrow> response \<Rightarrow> js_error" where
  "parseErrorResponse parseErr r =
     (case parseErr (bodyText r) of
        None \<Rightarrow>
          \<lparr>err_name = ''HttpError'',
           err_message = ''Server error ('' @ decimal (status r) @ ''): '' @ statusText r\<rparr>
      | Some errorData \<Rightarrow>
          (let message =
                 (case orElse (orElse (e_error_message errorData) (e_message errorData))
                         (Some (bodyText r)) of
                    None \<Rightarrow> ''Unknown server error''
                  | Some m \<Rightarrow> if m \<noteq> [] then m else ''Unknown server error'')
           in \<lparr>err_name = (if status r = 400 then ''ServerError'' else ''HttpError''),
               err_message = message\<rparr>))"

text \<open>How a promise settles.\<close>

datatype settled = ResolvedVoid | ResolvedWith string | RejectedWith js_error

text \<open>The error the \<open>catch\<close> block of \<open>sendMessage\<close> reports, for an error that is not an abort.\<close>

definition userFriendlyError :: "js_error \<Rightarrow> js_error" where
  "userFriendlyError e =
     (if err_name e = ''TypeError'' \<and> jsIncludes (err_message e) ''fetch'' then
        \<lparr>err_name = ''NetworkError'',
         err_message = ''Unable to connect to server - please check if the server is running''\<rparr>
      else if jsIncludes (err_message e) ''ECONNREFUSED'' then
        \<lparr>err_name = ''NetworkError'',
         err_message = ''Connection refused - server may be offline''\<rparr>
      else if jsIncludes (err_message e) ''ETIMEDOUT'' then
        \<lparr>err_name = ''TimeoutError'',
         err_message = ''Request timed out - the server took too long to respond''\<rparr>
      else e)"

definition catchBlock :: "js_error \<Rightarrow> settled \<times> callback list" where
  "catchBlock e =
     (if err_name e = ''AbortError'' then (ResolvedVoid, [])
      else (RejectedWith (userFriendlyError e), [OnError (userFriendlyError e)]))"

text \<open>
  Everything outside the program that one call of \<open>sendMessage\<close> meets: the settings,
  the platform's parsers, the server, the streamed body of the response and the state
  of the abort signal when streaming starts, the error of reading the body of a
  non-streamed response if that fails, the clock, and what other callers do to the map
  of controllers while the call is suspended. \<open>w_interleaved\<close> are the other callers'
  operations while \<open>sendMessage\<close> itself waits (for \<open>fetch\<close> and for the streaming
  handler), \<open>w_interleavedBody\<close> those while the non-streaming handler waits for
  \<open>response.text()\<close>. What the call sees of its own abort signal is part of the server's
  answer (a fetch rejected with an \<open>AbortError\<close>) and of the reads; it is not tied to the
  other callers' operations, so the model admits every combination of the two.
\<close>

record world =
  w_config :: config
  w_parseJson :: "string \<Rightarrow> jsval option"
  w_server :: "nat \<Rightarrow> jsobject \<Rightarrow> fetch_result"
  w_parseErrorBody :: "string \<Rightarrow> api_error_body option"
  w_parseChunk :: "string \<Rightarrow> stream_chunk option"
  w_parseResponse :: "string \<Rightarrow> js_error + completion_response"
  w_streamBody :: "read_event list option"
  w_signalAborted :: bool
  w_textFails :: "js_error option"
  w_requestStartTime :: int
  w_streamStartTime :: int
  w_endTime :: int
  w_interleaved :: "registry_op list"
  w_interleavedBody :: "registry_op list"

definition emptyResponse500 :: response where
  "emptyResponse500 = \<lparr>status = 500, statusText = [], bodyText = []\<rparr>"

text \<open>
  How control leaves the \<open>try\<close> block of \<open>sendMessage\<close>: an error is thrown (to the
  \<open>catch\<close> block), the streaming handler has been awaited and the block returns nothing,
  or the block returns the promise of the non-streaming handler. The last is
  \<open>return this.handleNonStreamResponse(...)\<close> without \<open>await\<close>: control leaves the block
  when the handler suspends at \<open>await response.text()\<close>, while the promise is pending.
\<close>

datatype tried =
    Thrown js_error "callback list"
  | StreamReturned "callback list"
  | HandedOver response

text \<open>The \<open>try\<close> block from the attempt loop on; \<open>None\<close> when the call stays suspended in it.\<close>

definition tryBlock :: "world \<Rightarrow> jsobject \<Rightarrow> bool \<Rightarrow> tried option" where
  "tryBlock w requestBody stream =
     (case fetchWithRetry (w_server w) requestBody of
        (Inl e, final, sent) \<Rightarrow> Some (Thrown e [])
      | (Inr None, final, sent) \<Rightarrow>
          (let error = parseErrorResponse (w_parseErrorBody w) emptyResponse500
           in Some (Thrown error [OnError error]))
      | (Inr (Some r), final, sent) \<Rightarrow>
          if \<not> ok r then
            (let error = parseErrorResponse (w_parseErrorBody w) r
             in Some (Thrown error [OnError error]))
          else if stream then
            (case handleStreamResponse (w_parseChunk w) (w_streamStartTime w)
                    (w_signalAborted w) (w_streamBody w) of
               None \<Rightarrow> None
             | Some (None, cs) \<Rightarrow> Some (StreamReturned cs)
             | Some (Some e, cs) \<Rightarrow> Some (Thrown e cs))
          else Some (HandedOver r))"

text \<open>
  The promise of the non-streaming handler, which the promise of \<open>sendMessage\<close> follows:
  it settles the way the handler ends, and an error of the handler does not pass the
  \<open>catch\<close> block of \<open>sendMessage\<close>.
\<close>

definition handedOver :: "world \<Rightarrow> response \<Rightarrow> settled \<times> callback list" where
  "handedOver w r =
     (case handleNonStreamResponse (w_parseResponse w)
             (case w_textFails w of None \<Rightarrow> Inr (bodyText r) | Some e \<Rightarrow> Inl e)
             (Some (w_requestStartTime w)) (w_endTime w) of
        (Inl e, cs) \<Rightarrow> (RejectedWith e, cs)
      | (Inr content, cs) \<Rightarrow> (ResolvedWith content, cs))"

text \<open>
  \<open>sendMessage\<close>: how the returned promise settles, the callbacks made, and the map of
  controllers when it settles; \<open>None\<close> when it never settles. The \<open>finally\<close> block runs
  when control leaves the \<open>try\<close> or the \<open>catch\<close> block. On the streaming path and on an
  error that is when the promise settles. On the non-streaming path it is when the
  handler first suspends: the other callers' operations of \<open>w_interleavedBody\<close> come
  after it and before the promise settles.
\<close>

definition sendMessage ::
  "world \<Rightarrow> registry \<Rightarrow> api_message list \<Rightarrow> jsobject \<Rightarrow> string option
     \<Rightarrow> (settled \<times> callback list \<times> registry) option" where
  "sendMessage w reg messages options conversationId =
     (let requestId = requestKey conversationId;
          reg1 = snd (registerRequest requestId reg);
          requestBody = builtRequest (w_config w) (w_parseJson w) messages options;
          reg2 = foldl applyOp reg1 (w_interleaved w);
          released = releaseRequest requestId reg2
      in case tryBlock w requestBody (jsTruthy (getProp options ''stream'')) of
           None \<Rightarrow> None
         | Some (StreamReturned cs) \<Rightarrow> Some (ResolvedVoid, cs, released)
         | Some (Thrown e cs) \<Rightarrow>
             (case catchBlock e of (res, cs') \<Rightarrow> Some (res, cs @ cs', released))
         | Some (HandedOver r) \<Rightarrow>
             (case handedOver w r of
                (res, cs) \<Rightarrow> Some (res, cs, foldl applyOp released (w_interleavedBody w))))"

section \<open>Notions used in the statements\<close>

text \<open>
  The call at a position of the accumulator (an empty call beyond its end), the
  argument text and the name of an optional function part, and the value a field has
  after a run of fragments that each set it when they carry a non-empty value.
\<close>

definition callAt :: "tool_call list \<Rightarrow> nat \<Rightarrow> tool_call" where
  "callAt xs k = (if k < length xs then xs ! k else emptyCall)"

definition functionArguments :: "tool_function option \<Rightarrow> string" where
  "functionArguments f =
     (case f of None \<Rightarrow> [] | Some g \<Rightarrow> (case fn_arguments g of None \<Rightarrow> [] | Some a \<Rightarrow> a))"

definition functionName :: "tool_function option \<Rightarrow> string option" where
  "functionName f = (case f of None \<Rightarrow> None | Some g \<Rightarrow> fn_name g)"

definition latest :: "string option \<Rightarrow> string option list \<Rightarrow> string option" where
  "latest old news = foldl (\<lambda>cur new. if truthy new then new else cur) old news"

text \<open>The two fragments of the specification's example, and the call they are to give.\<close>

definition exampleDelta1 :: tool_call_delta where
  \<open>exampleDelta1 =
     \<lparr>td_index = Some 0, td_id = None, td_type = None,
      td_function = Some \<lparr>fn_name = Some ''f'', fn_arguments = Some ''{"x":''\<rparr>\<rparr>\<close>

definition exampleDelta2 :: tool_call_delta where
  \<open>exampleDelta2 =
     \<lparr>td_index = Some 0, td_id = None, td_type = None,
      td_function = Some \<lparr>fn_name = None, fn_arguments = Some ''1}''\<rparr>\<rparr>\<close>

definition exampleMerged :: "tool_call list" where
  \<open>exampleMerged =
     [\<lparr>tc_id = None, tc_type = None,
       tc_function = Some \<lparr>fn_name = Some ''f'', fn_arguments = Some ''{"x":1}''\<rparr>\<rparr>]\<close>


definition baseBody :: "config \<Rightarrow> api_message list \<Rightarrow> jsval \<Rightarrow> jsobject" where
  "baseBody cfg messages stream =
     [(''messages'', JArr (map messageValue
         (injectSystemMessage cfg (filter keepMessage messages)))),
      (''stream'', stream)]"

text \<open>
  A body that an external provider is to get: only fields of the allow-list, and no
  \<open>max_tokens\<close> of \<open>-1\<close>.
\<close>

definition standardBody :: "jsobject \<Rightarrow> bool" where
  "standardBody b =
     (set (objectKeys b) \<subseteq> set standardKeys \<and> getProp b ''max_tokens'' \<noteq> JNum (- 1))"

text \<open>
  Example inputs: the default settings (same-origin server), a base URL that is the bare
  scheme, an external provider with a selected model; a server that rejects one
  unsupported parameter at a time, and one that rejects both in its first answer.
\<close>

definition localConfig :: config where
  "localConfig =
     \<lparr>apiKey = None, apiBaseUrl = None, systemMessage = None, modelSelectorEnabled = False,
      disableReasoningFormat = False, selectedModelName = None\<rparr>"

definition helloMessages :: "api_message list" where
  "helloMessages = [\<lparr>msg_role = ''user'', msg_content = JStr ''hello''\<rparr>]"

definition noJson :: "string \<Rightarrow> jsval option" where
  "noJson s = None"

definition schemeOnlyConfig :: config where
  "schemeOnlyConfig = localConfig\<lparr>apiBaseUrl := Some ''http://''\<rparr>"

definition externalConfig :: config where
  "externalConfig =
     localConfig\<lparr>apiBaseUrl := Some ''https://api.deepinfra.com/v1/openai/'',
                  modelSelectorEnabled := True, selectedModelName := Some ''m''\<rparr>"

definition exampleOptions :: jsobject where
  "exampleOptions =
     [(''stream'', JBool True), (''max_tokens'', JNum 0), (''top_k'', JNum 40),
      (''reasoning_effort'', JStr ''high'')]"

definition badRequest :: "string \<Rightarrow> fetch_result" where
  "badRequest t = Resolves \<lparr>status = 400, statusText = ''Bad Request'', bodyText = t\<rparr>"

definition okResponse :: response where
  "okResponse = \<lparr>status = 200, statusText = ''OK'', bodyText = ''{}''\<rparr>"

definition strictServer :: "nat \<Rightarrow> jsobject \<Rightarrow> fetch_result" where
  "strictServer attempt body =
     (if getProp body ''reasoning_effort'' \<noteq> Undefined
      then badRequest ''Unsupported parameter: reasoning_effort''
      else if getProp body ''max_tokens'' \<noteq> Undefined
      then badRequest ''Unsupported parameter: max_tokens''
      else Resolves okResponse)"

definition exampleBody :: jsobject where
  "exampleBody =
     [(''messages'', JArr []), (''stream'', JBool False), (''max_tokens'', JNum 100),
      (''reasoning_effort'', JStr ''high'')]"

definition bothServer :: "nat \<Rightarrow> jsobject \<Rightarrow> fetch_result" where
  "bothServer attempt body =
     (if attempt = 1 then badRequest ''max_tokens and reasoning_effort are not supported''
      else Resolves okResponse)"

text \<open>
  The map of controllers before any request, and what the code keeps true of it: no key
  twice, no controller under two keys, every controller in it allocated. A registry with
  requests for \<open>c1\<close> and \<open>c2\<close> in flight.
\<close>

definition emptyRegistry :: registry where
  "emptyRegistry = \<lparr>controllers = [], abortedRefs = {}, nextRef = 0\<rparr>"

definition wellFormed :: "registry \<Rightarrow> bool" where
  "wellFormed reg =
     (distinct (map fst (controllers reg)) \<and> distinct (map snd (controllers reg))
      \<and> list_all (\<lambda>c. c < nextRef reg) (map snd (controllers reg)))"

definition twoRequests :: registry where
  "twoRequests = snd (registerRequest ''c2'' (snd (registerRequest ''c1'' emptyRegistry)))"

text \<open>
  Example inputs for a whole call: a server that answers 200 with a body whose content
  is \<open>hi\<close>, and what that body parses to, while another caller starts a request for the
  same conversation and aborts a third one.
\<close>

definition hiText :: string where
  \<open>hiText = ''{"choices":[{"message":{"content":"hi"}}]}''\<close>

definition hiHttp :: response where
  "hiHttp = \<lparr>status = 200, statusText = ''OK'', bodyText = hiText\<rparr>"

definition okServer :: "nat \<Rightarrow> jsobject \<Rightarrow> fetch_result" where
  "okServer attempt body = Resolves hiHttp"

definition hiResponse :: completion_response where
  "hiResponse =
     \<lparr>cr_model = None,
      cr_choices = Some [\<lparr>rc_message = Some \<lparr>m_content = Some ''hi'', m_reasoning = None,
                                              m_reasoning_content = None, m_tool_calls = None,
                                              m_model = None\<rparr>,
                          rc_delta_model = None\<rparr>],
      cr_usage = None\<rparr>"

definition exampleWorld :: world where
  "exampleWorld =
     \<lparr>w_config = localConfig, w_parseJson = noJson, w_server = okServer,
      w_parseErrorBody = (\<lambda>s. None), w_parseChunk = (\<lambda>s. None),
      w_parseResponse = (\<lambda>s. Inr hiResponse), w_streamBody = None,
      w_signalAborted = False, w_textFails = None, w_requestStartTime = 1000,
      w_streamStartTime = 1000, w_endTime = 2000,
      w_interleaved = [SendEnter (Some ''c1''), AbortCall (Some ''c2'')],
      w_interleavedBody = []\<rparr>"

text \<open>
  The same server, for a call without conversation id (so under the key \<open>default\<close>, as
  the title generator makes it with \<open>stream: false\<close>): while the body of its response
  is read, another call without conversation id starts.
\<close>

definition titleWorld :: world where
  "titleWorld = exampleWorld\<lparr>w_interleaved := [], w_interleavedBody := [SendEnter None]\<rparr>"

text \<open>
  The usage counts of the specification's example; the sum of a snapshot's two times,
  and what it is for such a sum to equal the elapsed time within rounding: at most one
  millisecond below it. The completion callbacks of a trace, with their arguments.
\<close>

definition exampleUsage :: usage where
  "exampleUsage = \<lparr>prompt_tokens = Some 10, completion_tokens = Some 90, total_tokens = None\<rparr>"



fun completions ::
  "callback list \<Rightarrow> (string \<times> string option \<times> timings option \<times> tool_call list option) list" where
  "completions [] = []"
| "completions (OnComplete a b t d # cs) = (a, b, t, d) # completions cs"
| "completions (c # cs) = completions cs"

text \<open>
  Example streams and responses: a stream whose only chunk carries content, a finish
  reason and the usage counts, followed by \<open>[DONE]\<close>; the body of a response whose
  content is a space and a no-break space, from a model \<open>m\<close>, and what it parses to;
  what the body \<open>{}\<close> parses to, and a body that names only a model.
\<close>

definition usageChunk :: stream_chunk where
  "usageChunk =
     \<lparr>ch_object = Some ''chat.completion.chunk'', ch_model = None,
      ch_choices = Some [\<lparr>sc_delta = Some \<lparr>d_content = Some ''hi'', d_reasoning = None,
                                         d_reasoning_content = None, d_tool_calls = None,
                                         d_model = None\<rparr>,
                          sc_message_model = None, sc_finish_reason = Some ''stop''\<rparr>],
      ch_timings = None, ch_prompt_progress = Undefined, ch_usage = Some exampleUsage\<rparr>"

definition usageParse :: "string \<Rightarrow> stream_chunk option" where
  "usageParse data = (if data = ''{usage}'' then Some usageChunk else None)"

definition usageStream :: "read_event list" where
  "usageStream =
     [\<lparr>ev_aborted = False, ev_now = 1200, ev_result = ReadValue (''data: {usage}'' @ newline)\<rparr>,
      \<lparr>ev_aborted = False, ev_now = 2000, ev_result = ReadValue (''data: [DONE]'' @ newline)\<rparr>,
      \<lparr>ev_aborted = False, ev_now = 2000, ev_result = ReadDone\<rparr>]"

definition blankText :: string where
  \<open>blankText =
     ''{"model":"m","choices":[{"message":{"content":" '' @ [CHR 0xA0] @ ''","tool_calls":[]}}]}''\<close>

definition blankResponse :: completion_response where
  "blankResponse =
     \<lparr>cr_model = Some ''m'',
      cr_choices = Some [\<lparr>rc_message = Some \<lparr>m_content = Some [CHR '' '', CHR 0xA0],
                                              m_reasoning = None,
                                              m_reasoning_content = None,
                                              m_tool_calls = Some [], m_model = None\<rparr>,
                          rc_delta_model = None\<rparr>],
      cr_usage = None\<rparr>"

definition emptyObjectResponse :: completion_response where
  "emptyObjectResponse = \<lparr>cr_model = None, cr_choices = None, cr_usage = None\<rparr>"

definition modelOnlyText :: string where
  \<open>modelOnlyText = ''{"model":"m"}''\<close>

definition modelOnlyResponse :: completion_response where
  "modelOnlyResponse = \<lparr>cr_model = Some ''m'', cr_choices = None, cr_usage = None\<rparr>"

text \<open>
  Two states agree on what decides completion: the completion callbacks made, the
  \<open>[DONE]\<close> flag, the abort signal and the buffered partial line.
\<close>

definition sameControl :: "stream_state \<Rightarrow> stream_state \<Rightarrow> bool" where
  "sameControl st st' =
     (completions (calls st') = completions (calls st) \<and> streamFinished st' = streamFinished st
      \<and> aborted st' = aborted st \<and> chunk st' = chunk st)"

text \<open>
  The text of a read, and the complete lines of the text that a run of reads delivers:
  all pieces of its split at the line feeds but the last.
\<close>

definition valueText :: "read_event \<Rightarrow> string" where
  "valueText ev = (case ev_result ev of ReadValue t \<Rightarrow> t | _ \<Rightarrow> [])"

definition decodedLines :: "read_event list \<Rightarrow> string list" where
  "decodedLines vals = butlast (jsSplit (concat (map valueText vals)) newline)"

text \<open>
  A stream that ends after its only chunk, without a \<open>[DONE]\<close> line; and one whose
  \<open>[DONE]\<close> arrives without the line feed that would complete the line.
\<close>

definition truncatedStream :: "read_event list" where
  "truncatedStream =
     [\<lparr>ev_aborted = False, ev_now = 1200, ev_result = ReadValue (''data: {usage}'' @ newline)\<rparr>,
      \<lparr>ev_aborted = False, ev_now = 2000, ev_result = ReadDone\<rparr>]"

definition unterminatedStream :: "read_event list" where
  "unterminatedStream =
     [\<lparr>ev_aborted = False, ev_now = 1200, ev_result = ReadValue (''data: {usage}'' @ newline)\<rparr>,
      \<lparr>ev_aborted = False, ev_now = 2000, ev_result = ReadValue ''data: [DONE]''\<rparr>,
      \<lparr>ev_aborted = False, ev_now = 2000, ev_result = ReadDone\<rparr>]"

text \<open>
  A chunk that carries only a content delta; the visible text and the reasoning text a
  trace delivers (the arguments of \<open>onChunk\<close> and of \<open>onReasoningChunk\<close>, in order);
  and the decoder run on a list of content deltas, one chunk each.
\<close>

definition contentChunk :: "string \<Rightarrow> stream_chunk" where
  "contentChunk c =
     \<lparr>ch_object = Some ''chat.completion.chunk'', ch_model = None,
      ch_choices = Some [\<lparr>sc_delta = Some \<lparr>d_content = Some c, d_reasoning = None,
                                         d_reasoning_content = None, d_tool_calls = None,
                                         d_model = None\<rparr>,
                          sc_message_model = None, sc_finish_reason = None\<rparr>],
      ch_timings = None, ch_prompt_progress = Undefined, ch_usage = None\<rparr>"

fun visibleOf :: "callback list \<Rightarrow> string" where
  "visibleOf [] = []"
| "visibleOf (OnChunk s # cs) = s @ visibleOf cs"
| "visibleOf (c # cs) = visibleOf cs"

fun reasoningOf :: "callback list \<Rightarrow> string" where
  "reasoningOf [] = []"
| "reasoningOf (OnReasoningChunk s # cs) = s @ reasoningOf cs"
| "reasoningOf (c # cs) = reasoningOf cs"

definition streamDeltas :: "string list \<Rightarrow> stream_state" where
  "streamDeltas ds =
     foldl (\<lambda>st c. processChunk 0 (contentChunk c) st) (initialState False) ds"

















section \<open>Properties of the tool-call accumulator\<close>

lemma mergeFunction_arguments:
  "functionArguments (Some (mergeFunction target df)) =
     functionArguments target @ functionArguments (Some df)"
  by (cases target; cases "fn_arguments df")
     (simp_all add: mergeFunction_def functionArguments_def emptyFunction_def Let_def)

lemma mergeFunction_name:
  "functionName (Some (mergeFunction target df)) =
     (if truthy (fn_name df) then fn_name df else functionName target)"
  by (cases target; cases "fn_arguments df")
     (simp_all add: mergeFunction_def functionName_def emptyFunction_def Let_def)

lemma applyDelta_arguments:
  "functionArguments (tc_function (applyDelta d c)) =
     functionArguments (tc_function c) @ functionArguments (td_function d)"
proof (cases "td_function d")
  case None
  then show ?thesis by (simp add: applyDelta_def Let_def functionArguments_def)
next
  case (Some df)
  then show ?thesis
    using mergeFunction_arguments [of "tc_function c" df]
    by (simp add: applyDelta_def Let_def)
qed

lemma applyDelta_name:
  "functionName (tc_function (applyDelta d c)) =
     (if truthy (functionName (td_function d)) then functionName (td_function d)
      else functionName (tc_function c))"
proof (cases "td_function d")
  case None
  then show ?thesis by (simp add: applyDelta_def Let_def functionName_def)
next
  case (Some df)
  then show ?thesis
    using mergeFunction_name [of "tc_function c" df]
    by (simp add: applyDelta_def Let_def functionName_def)
qed

lemma applyDelta_id:
  "tc_id (applyDelta d c) = (if truthy (td_id d) then td_id d else tc_id c)"
  by (cases "td_function d") (simp_all add: applyDelta_def Let_def)

lemma applyDelta_type:
  "tc_type (applyDelta d c) = (if truthy (td_type d) then td_type d else tc_type c)"
  by (cases "td_function d") (simp_all add: applyDelta_def Let_def)

lemma mergeDelta_length:
  "length (mergeDelta off xs d) = max (length xs) (Suc (targetIndex off xs d))"
  by (auto simp: mergeDelta_def Let_def)

lemma mergeDelta_target:
  "callAt (mergeDelta off xs d) (targetIndex off xs d) =
     applyDelta d (callAt xs (targetIndex off xs d))"
  by (auto simp: mergeDelta_def Let_def callAt_def nth_append)

lemma mergeDelta_other:
  "j \<noteq> targetIndex off xs d \<Longrightarrow> callAt (mergeDelta off xs d) j = callAt xs j"
  by (auto simp: mergeDelta_def Let_def callAt_def nth_append)

lemma targetIndex_fixed:
  "td_index d = Some i \<Longrightarrow> 0 \<le> i \<Longrightarrow> targetIndex off xs d = nat i + off"
  by (simp add: targetIndex_def)

text \<open>
  Claim C6. Fragments that share an index are merged additively into the call at that
  index (after the batch offset): the arguments of the call are its former arguments
  followed by the fragments' arguments in arrival order; id, type and function name
  are those of the last fragment that carries one, else unchanged; every other call is
  untouched. Merging chunk by chunk under one offset gives what merging all fragments
  at once gives. The two fragments of the example, arriving in two chunks, merge into
  one call with the arguments \<open>{"x":1}\<close>.
\<close>

theorem mergeToolCallDeltas_additive:
  assumes "\<forall>d \<in> set ds. td_index d = Some i" and "0 \<le> i"
  shows "functionArguments (tc_function (callAt (mergeToolCallDeltas xs ds off) (nat i + off))) =
           functionArguments (tc_function (callAt xs (nat i + off)))
             @ concat (map (\<lambda>d. functionArguments (td_function d)) ds)
         \<and> tc_id (callAt (mergeToolCallDeltas xs ds off) (nat i + off)) =
             latest (tc_id (callAt xs (nat i + off))) (map td_id ds)
         \<and> tc_type (callAt (mergeToolCallDeltas xs ds off) (nat i + off)) =
             latest (tc_type (callAt xs (nat i + off))) (map td_type ds)
         \<and> functionName (tc_function (callAt (mergeToolCallDeltas xs ds off) (nat i + off))) =
             latest (functionName (tc_function (callAt xs (nat i + off))))
               (map (\<lambda>d. functionName (td_function d)) ds)
         \<and> (\<forall>j. j \<noteq> nat i + off \<longrightarrow> callAt (mergeToolCallDeltas xs ds off) j = callAt xs j)
         \<and> length (mergeToolCallDeltas xs ds off) =
             (if ds = [] then length xs else max (length xs) (Suc (nat i + off)))
         \<and> mergeToolCallDeltas (mergeToolCallDeltas xs ds off) ds' off =
             mergeToolCallDeltas xs (ds @ ds') off
         \<and> mergeToolCallDeltas (mergeToolCallDeltas [] [exampleDelta1] 0) [exampleDelta2] 0 =
             exampleMerged"
proof -
  have chunks:
    "mergeToolCallDeltas (mergeToolCallDeltas xs ds off) ds' off =
       mergeToolCallDeltas xs (ds @ ds') off"
    by (simp add: mergeToolCallDeltas_def)
  have example:
    "mergeToolCallDeltas (mergeToolCallDeltas [] [exampleDelta1] 0) [exampleDelta2] 0 =
       exampleMerged"
    by (simp add: mergeToolCallDeltas_def mergeDelta_def targetIndex_def applyDelta_def
          mergeFunction_def emptyCall_def emptyFunction_def exampleDelta1_def exampleDelta2_def
          exampleMerged_def Let_def)
  have general:
    "functionArguments (tc_function (callAt (mergeToolCallDeltas xs ds off) (nat i + off))) =
       functionArguments (tc_function (callAt xs (nat i + off)))
         @ concat (map (\<lambda>d. functionArguments (td_function d)) ds)
     \<and> tc_id (callAt (mergeToolCallDeltas xs ds off) (nat i + off)) =
         latest (tc_id (callAt xs (nat i + off))) (map td_id ds)
     \<and> tc_type (callAt (mergeToolCallDeltas xs ds off) (nat i + off)) =
         latest (tc_type (callAt xs (nat i + off))) (map td_type ds)
     \<and> functionName (tc_function (callAt (mergeToolCallDeltas xs ds off) (nat i + off))) =
         latest (functionName (tc_function (callAt xs (nat i + off))))
           (map (\<lambda>d. functionName (td_function d)) ds)
     \<and> (\<forall>j. j \<noteq> nat i + off \<longrightarrow> callAt (mergeToolCallDeltas xs ds off) j = callAt xs j)
     \<and> length (mergeToolCallDeltas xs ds off) =
         (if ds = [] then length xs else max (length xs) (Suc (nat i + off)))"
    using assms
  proof (induction ds arbitrary: xs)
    case Nil
    then show ?case by (simp add: mergeToolCallDeltas_def latest_def)
  next
    case (Cons d ds)
    have ti: "targetIndex off xs d = nat i + off"
      using Cons.prems by (simp add: targetIndex_fixed)
    have step:
      "mergeToolCallDeltas xs (d # ds) off = mergeToolCallDeltas (mergeDelta off xs d) ds off"
      by (simp add: mergeToolCallDeltas_def)
    have at: "callAt (mergeDelta off xs d) (nat i + off) = applyDelta d (callAt xs (nat i + off))"
      using mergeDelta_target [of off xs d] ti by simp
    have other: "\<And>j. j \<noteq> nat i + off \<Longrightarrow> callAt (mergeDelta off xs d) j = callAt xs j"
      using mergeDelta_other [of _ off xs d] ti by simp
    have len: "length (mergeDelta off xs d) = max (length xs) (Suc (nat i + off))"
      using mergeDelta_length [of off xs d] ti by simp
    from Cons.prems have "\<forall>d \<in> set ds. td_index d = Some i" by simp
    from Cons.IH [OF this Cons.prems(2), of "mergeDelta off xs d"]
    show ?case
      unfolding step at
      by (auto simp: applyDelta_arguments applyDelta_id applyDelta_type applyDelta_name
            latest_def other len)
  qed
  from general chunks example show ?thesis by simp
qed

text \<open>
  The theorem at the example's fragments, merged in one call into an empty
  accumulator: one call, named \<open>f\<close>, with the arguments \<open>{"x":1}\<close>.
\<close>

theorem mergeToolCallDeltas_additive_witness:
  "td_index exampleDelta1 = Some 0 \<and> td_index exampleDelta2 = Some 0
   \<and> mergeToolCallDeltas [] [exampleDelta1, exampleDelta2] 0 = exampleMerged
   \<and> functionArguments
         (tc_function (callAt (mergeToolCallDeltas [] [exampleDelta1, exampleDelta2] 0) 0)) =
       functionArguments (tc_function (exampleMerged ! 0))"
  using mergeToolCallDeltas_additive [of "[exampleDelta1, exampleDelta2]" 0 "[]" 0]
  by (simp add: mergeToolCallDeltas_def mergeDelta_def targetIndex_def applyDelta_def
        mergeFunction_def emptyCall_def emptyFunction_def exampleDelta1_def exampleDelta2_def
        exampleMerged_def callAt_def functionArguments_def Let_def)

section \<open>Properties of the request builder\<close>








lemma foldl_delete:
  "foldl (\<lambda>obj k. deleteProp k obj) obj ks = filter (\<lambda>(k, v). k \<notin> set ks) obj"
proof (induction ks arbitrary: obj)
  case Nil
  then show ?case by simp
next
  case (Cons k ks)
  have "deleteProp k obj = filter (\<lambda>(k', v). k' \<noteq> k) obj"
    by (induction obj) (auto simp: deleteProp_def)
  then show ?case using Cons.IH [of "deleteProp k obj"]
    by (auto simp: case_prod_unfold intro: filter_cong)
qed

lemma emptied: "foldl (\<lambda>obj k. deleteProp k obj) obj (objectKeys obj) = []"
  by (force simp: foldl_delete objectKeys_def filter_empty_conv)

lemma keys_setProp: "set (objectKeys (setProp k v obj)) = insert k (set (objectKeys obj))"
  by (auto simp: setProp_def objectKeys_def update_keys)

lemma keys_objectAssign:
  "set (objectKeys (objectAssign target src)) = set (objectKeys target) \<union> set (objectKeys src)"
  unfolding objectAssign_def
proof (induction src arbitrary: target)
  case Nil
  then show ?case by (simp add: objectKeys_def)
next
  case (Cons p ps)
  obtain k v where p: "p = (k, v)" by (cases p)
  have "set (objectKeys ((k, v) # ps)) = insert k (set (objectKeys ps))"
    by (simp add: objectKeys_def)
  then show ?case using Cons.IH [of "setProp k v target"]
    by (simp add: p keys_setProp)
qed

lemma keys_deleteProp: "set (objectKeys (deleteProp k obj)) = set (objectKeys obj) - {k}"
  by (auto simp: deleteProp_def objectKeys_def delete_keys)

lemma getProp_deleteProp: "getProp (deleteProp k obj) k = Undefined"
  by (simp add: getProp_def deleteProp_def delete_conv)

lemma filterExternal_keys: "set (objectKeys (filterExternal body)) \<subseteq> set standardKeys"
proof -
  let ?defined = "filter (\<lambda>(k, v). v \<noteq> Undefined)
          (map (\<lambda>k. (k, getProp body k)) standardKeys)"
  have d: "set (objectKeys ?defined) \<subseteq> set standardKeys"
    by (auto simp: objectKeys_def)
  have e: "set (objectKeys ([] :: jsobject)) = {}"
    by (simp add: objectKeys_def)
  have r: "set (objectKeys (objectAssign [] ?defined)) \<subseteq> set standardKeys"
    using d by (simp only: keys_objectAssign e Un_empty_left)
  show ?thesis
    unfolding filterExternal_def Let_def emptied
    using r by (auto simp: keys_deleteProp)
qed

lemma filterExternal_max_tokens:
  "getProp (filterExternal body) ''max_tokens'' \<noteq> JNum (- 1)"
  unfolding filterExternal_def Let_def
  by (simp add: getProp_deleteProp)


lemma wire_base:
  "set (wireFields (baseBody cfg messages stream)) =
     {''messages''} \<union> (if stream = Undefined then {} else {''stream''})"
  by (auto simp: baseBody_def wireFields_def)







lemma getProp_deleteProp_other: "k \<noteq> k' \<Longrightarrow> getProp (deleteProp k obj) k' = getProp obj k'"
  by (simp add: getProp_def deleteProp_def delete_conv)

lemma getProp_setProp: "getProp (setProp k v obj) k' = (if k' = k then v else getProp obj k')"
  by (simp add: getProp_def setProp_def update_conv')

lemma maxTokensRejected_drop:
  "maxTokensRejected t (dropReasoningEffort t b) = maxTokensRejected t b"
  by (simp add: maxTokensRejected_def dropReasoningEffort_def getProp_deleteProp_other)

lemma applyFixes_effect:
  "(reasoningEffortRejected t b \<longrightarrow> getProp (applyFixes t b) ''reasoning_effort'' = Undefined)
   \<and> (maxTokensRejected t b \<longrightarrow>
        getProp (applyFixes t b) ''max_tokens'' = Undefined
        \<and> getProp (applyFixes t b) ''max_completion_tokens'' = getProp b ''max_tokens'')"
  by (simp add: applyFixes_def swapMaxTokens_def maxTokensRejected_drop)
     (simp add: dropReasoningEffort_def getProp_deleteProp getProp_deleteProp_other
        getProp_setProp)

lemma applyFixes_keys:
  "set (objectKeys (applyFixes t b)) \<subseteq> insert ''max_completion_tokens'' (set (objectKeys b))"
  unfolding applyFixes_def swapMaxTokens_def dropReasoningEffort_def
  by (auto simp: keys_deleteProp keys_setProp)

lemma applyFixes_max_tokens:
  "getProp (applyFixes t b) ''max_tokens'' = getProp b ''max_tokens''
   \<or> getProp (applyFixes t b) ''max_tokens'' = Undefined"
  unfolding applyFixes_def swapMaxTokens_def dropReasoningEffort_def
  by (simp add: getProp_deleteProp getProp_deleteProp_other)

lemma applyFixes_standard:
  assumes "standardBody b"
  shows "standardBody (applyFixes t b)"
proof -
  have "''max_completion_tokens'' \<in> set standardKeys"
    by (simp add: standardKeys_def)
  with assms applyFixes_keys [of t b]
  have "set (objectKeys (applyFixes t b)) \<subseteq> set standardKeys"
    unfolding standardBody_def by blast
  moreover from assms applyFixes_max_tokens [of t b]
  have "getProp (applyFixes t b) ''max_tokens'' \<noteq> JNum (- 1)"
    unfolding standardBody_def by auto
  ultimately show ?thesis by (simp add: standardBody_def)
qed

lemma attemptLoop_standard:
  "standardBody body \<Longrightarrow> \<forall>b \<in> set (snd (snd (attemptLoop server left attempts body resp))). standardBody b"
proof (induction left arbitrary: attempts body resp)
  case 0
  then show ?case by simp
next
  case (Suc left)
  show ?case
  proof (cases "server (Suc attempts) body")
    case (Rejects e)
    with Suc.prems show ?thesis by simp
  next
    case (Resolves r)
    from Suc.IH [OF applyFixes_standard [OF Suc.prems, of "bodyText r"], of "Suc attempts" "Some r"]
    show ?thesis using Suc.prems Resolves
      by (auto simp: Let_def split: prod.splits)
  qed
qed

lemma builtRequest_standard:
  "isExternalApi (normalizeBaseUrl cfg) \<Longrightarrow> standardBody (builtRequest cfg parseJson messages options)"
  by (simp add: builtRequest_def Let_def standardBody_def filterExternal_keys filterExternal_max_tokens)

text \<open>
  What the code does deliver: whenever its own test recognises the base URL as external,
  the built request body has only fields of the allow-list and no \<open>max_tokens\<close> of
  \<open>-1\<close>, and so has every body the attempt loop sends, whatever the server answers.
\<close>

lemma external_gate_filters:
  assumes "isExternalApi (normalizeBaseUrl cfg)"
  shows "set (objectKeys (builtRequest cfg parseJson messages options)) \<subseteq> set standardKeys
         \<and> getProp (builtRequest cfg parseJson messages options) ''max_tokens'' \<noteq> JNum (- 1)
         \<and> (\<forall>b \<in> set (snd (snd (fetchWithRetry server
                      (builtRequest cfg parseJson messages options)))).
               set (objectKeys b) \<subseteq> set standardKeys
               \<and> getProp b ''max_tokens'' \<noteq> JNum (- 1))"
proof -
  have built: "standardBody (builtRequest cfg parseJson messages options)"
    by (rule builtRequest_standard [OF assms])
  from attemptLoop_standard [OF built, where server = server and left = maxAttempts
      and attempts = 0 and resp = None] built
  show ?thesis
    by (simp add: standardBody_def fetchWithRetry_def)
qed

lemma external_gate_filters_example:
  "isExternalApi (normalizeBaseUrl externalConfig)
   \<and> wireFields (builtRequest externalConfig noJson helloMessages exampleOptions) =
       [''messages'', ''model'', ''stream'', ''reasoning_effort'']"
proof -
  have ext: "isExternalApi (normalizeBaseUrl externalConfig)"
    by (simp add: externalConfig_def localConfig_def normalizeBaseUrl_def isExternalApi_def
          startsWith_def endsWith_def trim_def isSpace_def Let_def)
  have body: "buildRequestBody externalConfig noJson helloMessages exampleOptions =
     [(''messages'', JArr [JObj [(''role'', JStr ''user''), (''content'', JStr ''hello'')]]),
      (''stream'', JBool True), (''model'', JStr ''m''), (''reasoning_format'', JStr ''auto''),
      (''max_tokens'', JNum (- 1)), (''reasoning_effort'', JStr ''high''), (''top_k'', JNum 40)]"
    by (simp add: buildRequestBody_def Let_def localConfig_def externalConfig_def
        exampleOptions_def helloMessages_def keepMessage_def injectSystemMessage_def
        messageValue_def getProp_def setProp_def setIfDefined_def setMaxTokens_def
        setReasoningEffort_def setSamplers_def mergeCustom_def copyParams_def plainParams_def)
  have filtered: "filterExternal
     [(''messages'', JArr [JObj [(''role'', JStr ''user''), (''content'', JStr ''hello'')]]),
      (''stream'', JBool True), (''model'', JStr ''m''), (''reasoning_format'', JStr ''auto''),
      (''max_tokens'', JNum (- 1)), (''reasoning_effort'', JStr ''high''), (''top_k'', JNum 40)] =
     [(''messages'', JArr [JObj [(''role'', JStr ''user''), (''content'', JStr ''hello'')]]),
      (''model'', JStr ''m''), (''stream'', JBool True), (''reasoning_effort'', JStr ''high'')]"
    unfolding filterExternal_def Let_def emptied
    by (simp add: standardKeys_def getProp_def objectAssign_def setProp_def deleteProp_def)
  have built: "builtRequest externalConfig noJson helloMessages exampleOptions =
     [(''messages'', JArr [JObj [(''role'', JStr ''user''), (''content'', JStr ''hello'')]]),
      (''model'', JStr ''m''), (''stream'', JBool True), (''reasoning_effort'', JStr ''high'')]"
    unfolding builtRequest_def Let_def body using ext filtered by simp
  have fields: "wireFields (builtRequest externalConfig noJson helloMessages exampleOptions) =
       [''messages'', ''model'', ''stream'', ''reasoning_effort'']"
    unfolding built by (simp add: wireFields_def)
  from ext fields show ?thesis by (intro conjI)
qed

text \<open>
  Claim C5. For every configured base URL that begins with \<open>http://\<close> or \<open>https://\<close> the
  built request body is to have only fields of the allow-list and no \<open>max_tokens\<close> of
  \<open>-1\<close>. The code misses this for the base URL \<open>http://\<close>: it removes the trailing
  slash before it tests for the scheme, \<open>http:/\<close> does not pass the test, and the body
  goes out unfiltered, with \<open>reasoning_format\<close>, \<open>top_k\<close> and \<open>max_tokens\<close> of \<open>-1\<close>.
\<close>

theorem bare_scheme_unfiltered:
  "startsWith ''http://'' ''http://''
   \<and> apiBaseUrl schemeOnlyConfig = Some ''http://''
   \<and> normalizeBaseUrl schemeOnlyConfig = ''http:/''
   \<and> \<not> isExternalApi (normalizeBaseUrl schemeOnlyConfig)
   \<and> wireFields (builtRequest schemeOnlyConfig noJson helloMessages exampleOptions) =
       [''messages'', ''stream'', ''reasoning_format'', ''max_tokens'', ''reasoning_effort'',
        ''top_k'']
   \<and> getProp (builtRequest schemeOnlyConfig noJson helloMessages exampleOptions) ''max_tokens'' =
       JNum (- 1)
   \<and> ''reasoning_format'' \<notin> set standardKeys
   \<and> ''top_k'' \<notin> set standardKeys"
  by (simp add: builtRequest_def buildRequestBody_def Let_def localConfig_def schemeOnlyConfig_def
        exampleOptions_def normalizeBaseUrl_def isExternalApi_def startsWith_def endsWith_def
        trim_def isSpace_def getProp_def setProp_def setIfDefined_def setMaxTokens_def
        setReasoningEffort_def setSamplers_def mergeCustom_def copyParams_def plainParams_def
        wireFields_def standardKeys_def)

section \<open>Properties of the attempt loop\<close>

lemma attemptLoop_sent:
  "attemptLoop server left attempts body resp = (out, final, sent) \<Longrightarrow>
     length sent \<le> left
     \<and> (0 < left \<longrightarrow> sent \<noteq> [] \<and> hd sent = body)
     \<and> (\<forall>i. Suc i < length sent \<longrightarrow>
           (\<exists>r. server (attempts + Suc i) (sent ! i) = Resolves r \<and> status r = 400
                \<and> retrying (bodyText r) (sent ! i)
                \<and> sent ! Suc i = applyFixes (bodyText r) (sent ! i)))
     \<and> (sent \<noteq> [] \<longrightarrow>
           out = (case server (attempts + length sent) (last sent) of
                    Rejects e \<Rightarrow> Inl e
                  | Resolves r \<Rightarrow> Inr (Some r)))"
proof (induction left arbitrary: attempts body resp out final sent)
  case 0
  then show ?case by simp
next
  case (Suc left)
  show ?case
  proof (cases "server (Suc attempts) body")
    case (Rejects e)
    with Suc.prems show ?thesis by auto
  next
    case (Resolves r)
    show ?thesis
    proof (cases "\<not> ok r \<and> status r = 400 \<and> retrying (bodyText r) body")
      case False
      with Suc.prems Resolves show ?thesis by (auto simp: Let_def split: if_splits)
    next
      case True
      obtain out' final' sent' where rec:
        "attemptLoop server left (Suc attempts) (applyFixes (bodyText r) body) (Some r) =
           (out', final', sent')"
        by (cases "attemptLoop server left (Suc attempts) (applyFixes (bodyText r) body) (Some r)")
      from Suc.prems Resolves True rec
      have eqs: "out = out'" "final = final'" "sent = body # sent'"
        by (auto simp: Let_def)
      note IH = Suc.IH [OF rec]
      show ?thesis
      proof (cases left)
        case 0
        with rec have "sent' = []" "out' = Inr (Some r)" by auto
        with eqs Resolves 0 show ?thesis by simp
      next
        case (Suc l)
        with IH have ne: "sent' \<noteq> []" and hd: "hd sent' = applyFixes (bodyText r) body"
          by auto
        have steps: "\<forall>i. Suc i < length sent \<longrightarrow>
           (\<exists>r. server (attempts + Suc i) (sent ! i) = Resolves r \<and> status r = 400
                \<and> retrying (bodyText r) (sent ! i)
                \<and> sent ! Suc i = applyFixes (bodyText r) (sent ! i))"
        proof (intro allI impI)
          fix i assume i: "Suc i < length sent"
          show "\<exists>r. server (attempts + Suc i) (sent ! i) = Resolves r \<and> status r = 400
                \<and> retrying (bodyText r) (sent ! i)
                \<and> sent ! Suc i = applyFixes (bodyText r) (sent ! i)"
          proof (cases i)
            case 0
            with Resolves True eqs ne hd show ?thesis
              by (auto simp: hd_conv_nth)
          next
            case (Suc j)
            with i eqs have "Suc j < length sent'" by simp
            with IH obtain r' where
              "server (Suc attempts + Suc j) (sent' ! j) = Resolves r'" "status r' = 400"
              "retrying (bodyText r') (sent' ! j)"
              "sent' ! Suc j = applyFixes (bodyText r') (sent' ! j)"
              by blast
            with Suc eqs show ?thesis by auto
          qed
        qed
        from IH ne have "out' = (case server (Suc attempts + length sent') (last sent') of
              Rejects e \<Rightarrow> Inl e
            | Resolves r \<Rightarrow> Inr (Some r))" by simp
        with eqs ne have last: "out = (case server (attempts + length sent) (last sent) of
              Rejects e \<Rightarrow> Inl e
            | Resolves r \<Rightarrow> Inr (Some r))" by simp
        from IH eqs have "length sent \<le> Suc left" by simp
        with steps last eqs show ?thesis by simp
      qed
    qed
  qed
qed

lemma attemptLoop_no_retry:
  "(case server (Suc attempts) body of
      Rejects e \<Rightarrow> True
    | Resolves r \<Rightarrow> ok r \<or> status r \<noteq> 400 \<or> \<not> retrying (bodyText r) body) \<Longrightarrow>
   snd (snd (attemptLoop server (Suc left) attempts body resp)) = [body]"
  by (cases "server (Suc attempts) body") (auto simp: Let_def)

lemma attemptLoop_retries:
  "attemptLoop server left attempts body resp = (out, final, sent) \<Longrightarrow>
     i < length sent \<Longrightarrow> Suc i < left \<Longrightarrow>
     server (attempts + Suc i) (sent ! i) = Resolves r \<Longrightarrow> status r = 400 \<Longrightarrow>
     retrying (bodyText r) (sent ! i) \<Longrightarrow> Suc i < length sent"
proof (induction left arbitrary: attempts body resp out final sent i)
  case 0
  then show ?case by simp
next
  case (Suc left)
  from attemptLoop_sent [OF Suc.prems(1)] have ne: "sent \<noteq> []" and hd: "hd sent = body"
    by simp_all
  show ?case
  proof (cases "server (Suc attempts) body")
    case (Rejects e)
    with Suc.prems have "sent = [body]" by auto
    with Suc.prems Rejects show ?thesis by simp
  next
    case (Resolves r0)
    show ?thesis
    proof (cases "\<not> ok r0 \<and> status r0 = 400 \<and> retrying (bodyText r0) body")
      case False
      with Suc.prems(1) Resolves have "sent = [body]"
        by (auto simp: Let_def split: if_splits)
      with Suc.prems Resolves False show ?thesis by (auto simp: ok_def)
    next
      case True
      obtain out' final' sent' where rec:
        "attemptLoop server left (Suc attempts) (applyFixes (bodyText r0) body) (Some r0) =
           (out', final', sent')"
        by (cases "attemptLoop server left (Suc attempts) (applyFixes (bodyText r0) body) (Some r0)")
      from Suc.prems(1) Resolves True rec have eqs: "sent = body # sent'"
        by (auto simp: Let_def)
      from Suc.prems(3) have "0 < left" by simp
      with attemptLoop_sent [OF rec] have ne': "sent' \<noteq> []" by simp
      show ?thesis
      proof (cases i)
        case 0
        with eqs ne' show ?thesis by simp
      next
        case (Suc j)
        with Suc.prems eqs have "j < length sent'" "Suc j < left"
          "server (Suc attempts + Suc j) (sent' ! j) = Resolves r"
          "retrying (bodyText r) (sent' ! j)"
          by simp_all
        from Suc.IH [OF rec this(1,2,3) Suc.prems(5) this(4)] Suc eqs
        show ?thesis by simp
      qed
    qed
  qed
qed

lemmas loop_simps = fetchWithRetry_def maxAttempts_def numeral_3_eq_3 strictServer_def
  exampleBody_def badRequest_def okResponse_def ok_def applyFixes_def retrying_def
  reasoningEffortRejected_def maxTokensRejected_def dropReasoningEffort_def swapMaxTokens_def
  getProp_def setProp_def deleteProp_def unknownNameMaxTokens_def Let_def

text \<open>
  Claim C2, as stated, fails: the loop allows three attempts. A server that rejects one
  unsupported parameter at a time gets the request three times: as built, without
  \<open>reasoning_effort\<close>, and with \<open>max_tokens\<close> renamed.
\<close>

theorem two_retries_counterexample:
  "fetchWithRetry strictServer exampleBody =
     (Inr (Some okResponse),
      [(''messages'', JArr []), (''stream'', JBool False), (''max_completion_tokens'', JNum 100)],
      [exampleBody,
       [(''messages'', JArr []), (''stream'', JBool False), (''max_tokens'', JNum 100)],
       [(''messages'', JArr []), (''stream'', JBool False), (''max_completion_tokens'', JNum 100)]])
   \<and> length (snd (snd (fetchWithRetry strictServer exampleBody))) = 3"
proof -
  have "fetchWithRetry strictServer exampleBody =
     (Inr (Some okResponse),
      [(''messages'', JArr []), (''stream'', JBool False), (''max_completion_tokens'', JNum 100)],
      [exampleBody,
       [(''messages'', JArr []), (''stream'', JBool False), (''max_tokens'', JNum 100)],
       [(''messages'', JArr []), (''stream'', JBool False), (''max_completion_tokens'', JNum 100)]])"
    by (simp add: loop_simps)
  then show ?thesis by simp
qed

text \<open>
  Claim C2, amended. A call makes at most three attempts, that is at most two retries.
  The first attempt sends the body as built. An attempt is followed by another only
  when its response is an HTTP 400 whose text matches the \<open>reasoning_effort\<close> heuristic
  (with \<open>reasoning_effort\<close> in the body sent) or the \<open>max_tokens\<close> heuristic (with
  \<open>max_tokens\<close> in the body sent); the next body is the one sent with
  \<open>reasoning_effort\<close> removed and \<open>max_tokens\<close> renamed to \<open>max_completion_tokens\<close>,
  as matched. What the last attempt gives is surfaced as it is. A rejected fetch, a
  response that is not a 400, and a 400 that matches neither heuristic are never
  retried; a 400 that matches one is retried as long as fewer than three attempts have
  been made.
\<close>

theorem fetchWithRetry_attempts:
  assumes "fetchWithRetry server body = (out, final, sent)"
  shows "sent \<noteq> [] \<and> hd sent = body \<and> length sent \<le> 3
         \<and> (\<forall>i. Suc i < length sent \<longrightarrow>
               (\<exists>r. server (Suc i) (sent ! i) = Resolves r \<and> status r = 400
                    \<and> retrying (bodyText r) (sent ! i)
                    \<and> sent ! Suc i = applyFixes (bodyText r) (sent ! i)
                    \<and> (reasoningEffortRejected (bodyText r) (sent ! i) \<longrightarrow>
                         getProp (sent ! Suc i) ''reasoning_effort'' = Undefined)
                    \<and> (maxTokensRejected (bodyText r) (sent ! i) \<longrightarrow>
                         getProp (sent ! Suc i) ''max_tokens'' = Undefined
                         \<and> getProp (sent ! Suc i) ''max_completion_tokens'' =
                             getProp (sent ! i) ''max_tokens'')))
         \<and> out = (case server (length sent) (last sent) of
                    Rejects e \<Rightarrow> Inl e
                  | Resolves r \<Rightarrow> Inr (Some r))
         \<and> ((case server 1 body of
                Rejects e \<Rightarrow> True
              | Resolves r \<Rightarrow> ok r \<or> status r \<noteq> 400 \<or> \<not> retrying (bodyText r) body)
              \<longrightarrow> sent = [body])
         \<and> (\<forall>i r. i < length sent \<longrightarrow> Suc i < 3 \<longrightarrow>
               server (Suc i) (sent ! i) = Resolves r \<longrightarrow> status r = 400 \<longrightarrow>
               retrying (bodyText r) (sent ! i) \<longrightarrow> Suc i < length sent)"
proof -
  from assms have loop: "attemptLoop server (Suc 2) 0 body None = (out, final, sent)"
    by (simp add: fetchWithRetry_def maxAttempts_def numeral_3_eq_3)
  note facts = attemptLoop_sent [OF loop]
  from facts have ne: "sent \<noteq> []" and hd: "hd sent = body" and len: "length sent \<le> 3"
    by simp_all
  have steps: "\<forall>i. Suc i < length sent \<longrightarrow>
               (\<exists>r. server (Suc i) (sent ! i) = Resolves r \<and> status r = 400
                    \<and> retrying (bodyText r) (sent ! i)
                    \<and> sent ! Suc i = applyFixes (bodyText r) (sent ! i)
                    \<and> (reasoningEffortRejected (bodyText r) (sent ! i) \<longrightarrow>
                         getProp (sent ! Suc i) ''reasoning_effort'' = Undefined)
                    \<and> (maxTokensRejected (bodyText r) (sent ! i) \<longrightarrow>
                         getProp (sent ! Suc i) ''max_tokens'' = Undefined
                         \<and> getProp (sent ! Suc i) ''max_completion_tokens'' =
                             getProp (sent ! i) ''max_tokens''))"
  proof (intro allI impI)
    fix i assume "Suc i < length sent"
    with facts obtain r where r: "server (Suc i) (sent ! i) = Resolves r" "status r = 400"
      "retrying (bodyText r) (sent ! i)" "sent ! Suc i = applyFixes (bodyText r) (sent ! i)"
      by auto
    with applyFixes_effect [of "bodyText r" "sent ! i"]
    show "\<exists>r. server (Suc i) (sent ! i) = Resolves r \<and> status r = 400
                    \<and> retrying (bodyText r) (sent ! i)
                    \<and> sent ! Suc i = applyFixes (bodyText r) (sent ! i)
                    \<and> (reasoningEffortRejected (bodyText r) (sent ! i) \<longrightarrow>
                         getProp (sent ! Suc i) ''reasoning_effort'' = Undefined)
                    \<and> (maxTokensRejected (bodyText r) (sent ! i) \<longrightarrow>
                         getProp (sent ! Suc i) ''max_tokens'' = Undefined
                         \<and> getProp (sent ! Suc i) ''max_completion_tokens'' =
                             getProp (sent ! i) ''max_tokens'')"
      by auto
  qed
  from facts ne have out: "out = (case server (length sent) (last sent) of
                    Rejects e \<Rightarrow> Inl e
                  | Resolves r \<Rightarrow> Inr (Some r))"
    by simp
  have once: "(case server 1 body of
                Rejects e \<Rightarrow> True
              | Resolves r \<Rightarrow> ok r \<or> status r \<noteq> 400 \<or> \<not> retrying (bodyText r) body)
              \<longrightarrow> sent = [body]"
    using attemptLoop_no_retry [where server = server and attempts = 0 and body = body
        and left = 2 and resp = None] loop by simp
  have again: "\<forall>i r. i < length sent \<longrightarrow> Suc i < 3 \<longrightarrow>
               server (Suc i) (sent ! i) = Resolves r \<longrightarrow> status r = 400 \<longrightarrow>
               retrying (bodyText r) (sent ! i) \<longrightarrow> Suc i < length sent"
    using attemptLoop_retries [OF loop] by (simp add: numeral_3_eq_3)
  from ne hd len steps out once again show ?thesis by blast
qed

theorem fetchWithRetry_attempts_witness:
  "fetchWithRetry bothServer exampleBody =
     (Inr (Some okResponse),
      [(''messages'', JArr []), (''stream'', JBool False), (''max_completion_tokens'', JNum 100)],
      [exampleBody,
       [(''messages'', JArr []), (''stream'', JBool False),
        (''max_completion_tokens'', JNum 100)]])
   \<and> length [exampleBody,
       [(''messages'', JArr []), (''stream'', JBool False),
        (''max_completion_tokens'', JNum 100)]] \<le> 3"
proof -
  have run: "fetchWithRetry bothServer exampleBody =
     (Inr (Some okResponse),
      [(''messages'', JArr []), (''stream'', JBool False), (''max_completion_tokens'', JNum 100)],
      [exampleBody,
       [(''messages'', JArr []), (''stream'', JBool False),
        (''max_completion_tokens'', JNum 100)]])"
    by (simp add: loop_simps bothServer_def)
  from fetchWithRetry_attempts [OF run] run show ?thesis by simp
qed

section \<open>Properties of the request lifecycle\<close>

lemma wellFormed_empty: "wellFormed emptyRegistry"
  by (simp add: wellFormed_def emptyRegistry_def)

lemma abortRef_controllers [simp]: "controllers (abortRef c reg) = controllers reg"
  and abortRef_nextRef [simp]: "nextRef (abortRef c reg) = nextRef reg"
  by (simp_all add: abortRef_def)

lemma foldr_abortRef_controllers [simp]: "controllers (foldr abortRef cs reg) = controllers reg"
  and foldr_abortRef_nextRef [simp]: "nextRef (foldr abortRef cs reg) = nextRef reg"
  by (induction cs) simp_all

lemma foldr_abortRef_aborted [simp]:
  "abortedRefs (foldr abortRef cs reg) = set cs \<union> abortedRefs reg"
  by (induction cs) (auto simp: abortRef_def)

lemma delete_snd_subset: "set (map snd (AList.delete k al)) \<subseteq> set (map snd al)"
  by (induction al) auto

lemma distinct_snd_delete: "distinct (map snd al) \<Longrightarrow> distinct (map snd (AList.delete k al))"
proof (induction al)
  case Nil
  then show ?case by simp
next
  case (Cons p al)
  then show ?case using delete_snd_subset [of k al] by (cases p) auto
qed

lemma wellFormed_release: "wellFormed reg \<Longrightarrow> wellFormed (releaseRequest k reg)"
proof -
  assume wf: "wellFormed reg"
  have "list_all (\<lambda>c. c < nextRef reg) (map snd (AList.delete k (controllers reg)))"
    using wf delete_snd_subset [of k "controllers reg"]
    unfolding wellFormed_def list_all_iff by blast
  with wf show ?thesis
    by (simp add: wellFormed_def releaseRequest_def distinct_delete distinct_snd_delete)
qed

lemma update_snd_subset: "set (map snd (AList.update k v al)) \<subseteq> insert v (set (map snd al))"
  by (induction al) auto

lemma distinct_snd_update:
  "distinct (map snd al) \<Longrightarrow> v \<notin> set (map snd al) \<Longrightarrow> distinct (map snd (AList.update k v al))"
proof (induction al)
  case Nil
  then show ?case by simp
next
  case (Cons p al)
  then show ?case using update_snd_subset [of k v al] by (cases p) auto
qed

lemma wellFormed_register: "wellFormed reg \<Longrightarrow> wellFormed (snd (registerRequest k reg))"
proof -
  assume wf: "wellFormed reg"
  let ?c = "nextRef reg"
  have fresh: "?c \<notin> set (map snd (controllers reg))"
    using wf by (auto simp: wellFormed_def list_all_iff)
  have d: "distinct (map snd (AList.update k ?c (controllers reg)))"
    using wf fresh by (simp add: wellFormed_def distinct_snd_update)
  have "\<forall>c \<in> insert ?c (set (map snd (controllers reg))). c < Suc ?c"
    using wf unfolding wellFormed_def list_all_iff by (simp add: less_Suc_eq)
  then have b: "list_all (\<lambda>c. c < Suc ?c) (map snd (AList.update k ?c (controllers reg)))"
    using update_snd_subset [of k ?c "controllers reg"]
    unfolding list_all_iff by blast
  from wf d b show ?thesis
    by (cases "map_of (controllers reg) k")
       (simp_all add: registerRequest_def Let_def wellFormed_def distinct_update)
qed

lemma wellFormed_abort: "wellFormed reg \<Longrightarrow> wellFormed (abort cid reg)"
proof -
  assume wf: "wellFormed reg"
  have all: "wellFormed ((foldr abortRef (map snd (controllers reg)) reg)\<lparr>controllers := []\<rparr>)"
    by (simp add: wellFormed_def)
  have one: "\<And>k c. wellFormed ((abortRef c reg)\<lparr>controllers := AList.delete k (controllers reg)\<rparr>)"
    using wellFormed_release [OF wf] by (simp add: wellFormed_def releaseRequest_def)
  show ?thesis
    using wf all one
    by (auto simp: abort_def Let_def split: option.splits)
qed

lemma wellFormed_applyOp: "wellFormed reg \<Longrightarrow> wellFormed (applyOp reg op)"
  by (cases op) (simp_all add: wellFormed_abort wellFormed_register wellFormed_release)

lemma other_controller:
  assumes "distinct (map snd al)" and "map_of al k = Some c" and "map_of al k' = Some c'"
    and "k \<noteq> k'"
  shows "c \<noteq> c'"
proof
  assume "c = c'"
  from assms(2,3) have "(k, c) \<in> set al" "(k', c') \<in> set al"
    by (auto dest: map_of_SomeD)
  moreover from assms(1) have "inj_on snd (set al)" by (simp add: distinct_map)
  ultimately have "(k, c) = (k', c')" using \<open>c = c'\<close> by (intro inj_onD [of snd "set al"]) simp_all
  with assms(4) show False by simp
qed

text \<open>
  Claim C7. In a map of controllers as the code maintains it (each request has its own
  controller), \<open>abort\<close> with a conversation id removes that id's entry and aborts its
  controller; every other entry stays in the map, and its controller's signal is
  aborted after the call exactly if it was before. \<open>abort\<close> without an id empties the
  map and aborts every controller that was in it. (An empty id counts as no id, as in
  \<open>conversationId || 'default'\<close>.)
\<close>

theorem abort_frame:
  assumes "wellFormed reg"
  shows "(cid \<noteq> [] \<longrightarrow>
            map_of (controllers (abort (Some cid) reg)) cid = None
            \<and> (\<forall>c. map_of (controllers reg) cid = Some c \<longrightarrow>
                  c \<in> abortedRefs (abort (Some cid) reg))
            \<and> (\<forall>k c. k \<noteq> cid \<longrightarrow> map_of (controllers reg) k = Some c \<longrightarrow>
                  map_of (controllers (abort (Some cid) reg)) k = Some c
                  \<and> (c \<in> abortedRefs (abort (Some cid) reg) \<longleftrightarrow> c \<in> abortedRefs reg)))
         \<and> controllers (abort None reg) = []
         \<and> (\<forall>k c. map_of (controllers reg) k = Some c \<longrightarrow> c \<in> abortedRefs (abort None reg))"
proof -
  from assms have d: "distinct (map snd (controllers reg))" by (simp add: wellFormed_def)
  have specific: "map_of (controllers (abort (Some cid) reg)) cid = None
            \<and> (\<forall>c. map_of (controllers reg) cid = Some c \<longrightarrow>
                  c \<in> abortedRefs (abort (Some cid) reg))
            \<and> (\<forall>k c. k \<noteq> cid \<longrightarrow> map_of (controllers reg) k = Some c \<longrightarrow>
                  map_of (controllers (abort (Some cid) reg)) k = Some c
                  \<and> (c \<in> abortedRefs (abort (Some cid) reg) \<longleftrightarrow> c \<in> abortedRefs reg))"
    if cid: "cid \<noteq> []"
  proof (cases "map_of (controllers reg) cid")
    case None
    with cid show ?thesis by (simp add: abort_def Let_def)
  next
    case (Some c0)
    have "c \<noteq> c0" if "k \<noteq> cid" "map_of (controllers reg) k = Some c" for k c
      using other_controller [OF d that(2) Some that(1)] .
    with cid Some show ?thesis
      by (auto simp: abort_def Let_def abortRef_def delete_conv)
  qed
  have everything: "controllers (abort None reg) = []
         \<and> (\<forall>k c. map_of (controllers reg) k = Some c \<longrightarrow> c \<in> abortedRefs (abort None reg))"
    by (auto simp: abort_def Let_def dest!: map_of_SomeD intro!: image_eqI [where f = snd])
  from specific everything show ?thesis by blast
qed

lemma twoRequests_eq:
  "twoRequests = \<lparr>controllers = [(''c1'', 0), (''c2'', 1)], abortedRefs = {}, nextRef = 2\<rparr>"
  by (simp add: twoRequests_def registerRequest_def emptyRegistry_def Let_def numeral_2_eq_2)

theorem abort_frame_witness:
  "wellFormed twoRequests
   \<and> abort (Some ''c1'') twoRequests =
       \<lparr>controllers = [(''c2'', 1)], abortedRefs = {0}, nextRef = 2\<rparr>
   \<and> map_of (controllers (abort (Some ''c1'') twoRequests)) ''c2'' = Some 1
   \<and> 1 \<notin> abortedRefs (abort (Some ''c1'') twoRequests)
   \<and> abort None twoRequests = \<lparr>controllers = [], abortedRefs = {0, 1}, nextRef = 2\<rparr>"
proof -
  have wf: "wellFormed twoRequests"
    unfolding twoRequests_def
    by (intro wellFormed_register wellFormed_empty)
  have one: "abort (Some ''c1'') twoRequests =
       \<lparr>controllers = [(''c2'', 1)], abortedRefs = {0}, nextRef = 2\<rparr>"
    by (simp add: twoRequests_eq abort_def abortRef_def Let_def)
  have all: "abort None twoRequests = \<lparr>controllers = [], abortedRefs = {0, 1}, nextRef = 2\<rparr>"
    by (simp add: twoRequests_eq abort_def abortRef_def Let_def)
  have before: "map_of (controllers twoRequests) ''c2'' = Some 1" "1 \<notin> abortedRefs twoRequests"
    by (simp_all add: twoRequests_eq)
  from abort_frame [OF wf, of "''c1''"]
  have "\<forall>k c. k \<noteq> ''c1'' \<longrightarrow> map_of (controllers twoRequests) k = Some c \<longrightarrow>
          map_of (controllers (abort (Some ''c1'') twoRequests)) k = Some c
          \<and> (c \<in> abortedRefs (abort (Some ''c1'') twoRequests) \<longleftrightarrow> c \<in> abortedRefs twoRequests)"
    by simp
  from this [rule_format, of "''c2''" 1] before
  have "map_of (controllers (abort (Some ''c1'') twoRequests)) ''c2'' = Some 1
     \<and> 1 \<notin> abortedRefs (abort (Some ''c1'') twoRequests)"
    by simp
  with wf one all show ?thesis by simp
qed

lemma wellFormed_applyOps: "wellFormed reg \<Longrightarrow> wellFormed (foldl applyOp reg ops)"
  by (induction ops arbitrary: reg) (simp_all add: wellFormed_applyOp)

lemma tryBlock_streaming: "tryBlock w body True \<noteq> Some (HandedOver r)"
  by (auto simp: tryBlock_def Let_def split: prod.splits sum.splits option.splits)

text \<open>
  The map of controllers when the promise settles is the map as the \<open>finally\<close> block
  left it, changed by what other callers did after that: nothing on the streaming path
  and on an error of \<open>sendMessage\<close> itself, the operations of \<open>w_interleavedBody\<close> on the
  non-streaming path.
\<close>

lemma sendMessage_registry:
  assumes "sendMessage w reg messages options conversationId = Some (res, cs, reg')"
  shows "\<exists>ops. reg' = foldl applyOp
                  (releaseRequest (requestKey conversationId)
                     (foldl applyOp (snd (registerRequest (requestKey conversationId) reg))
                        (w_interleaved w))) ops
              \<and> (ops = [] \<or> (\<not> jsTruthy (getProp options ''stream'')
                              \<and> ops = w_interleavedBody w))"
proof (cases "tryBlock w (builtRequest (w_config w) (w_parseJson w) messages options)
                (jsTruthy (getProp options ''stream''))")
  case None
  with assms show ?thesis by (simp add: sendMessage_def Let_def)
next
  case (Some t)
  show ?thesis
  proof (cases t)
    case (Thrown e cs0)
    with Some assms show ?thesis
      by (intro exI [of _ "[]"]) (auto simp: sendMessage_def Let_def split: prod.splits)
  next
    case (StreamReturned cs0)
    with Some assms show ?thesis
      by (intro exI [of _ "[]"]) (auto simp: sendMessage_def Let_def)
  next
    case (HandedOver r)
    with Some tryBlock_streaming have "\<not> jsTruthy (getProp options ''stream'')"
      by (cases "jsTruthy (getProp options ''stream'')") auto
    with HandedOver Some assms show ?thesis
      by (intro exI [of _ "w_interleavedBody w"])
         (auto simp: sendMessage_def Let_def split: prod.splits)
  qed
qed

lemma sendMessage_wellFormed:
  assumes "sendMessage w reg messages options conversationId = Some (res, cs, reg')"
    and "wellFormed reg"
  shows "wellFormed reg'"
proof -
  from sendMessage_registry [OF assms(1)] obtain ops where
    "reg' = foldl applyOp
              (releaseRequest (requestKey conversationId)
                 (foldl applyOp (snd (registerRequest (requestKey conversationId) reg))
                    (w_interleaved w))) ops"
    by blast
  with assms(2) show ?thesis
    by (simp add: wellFormed_release wellFormed_applyOps wellFormed_register)
qed

text \<open>
  Where the key is released when the promise settles: on the streaming path, and on the
  non-streaming path when no other caller touches the map while the body is read, the
  map of controllers has no entry under the call's request key, whatever other callers
  did to the map while \<open>sendMessage\<close> itself was suspended.
\<close>

lemma sendMessage_release_at_settle:
  assumes "sendMessage w reg messages options conversationId = Some (res, cs, reg')"
    and "jsTruthy (getProp options ''stream'') \<or> w_interleavedBody w = []"
  shows "map_of (controllers reg') (requestKey conversationId) = None"
proof -
  from sendMessage_registry [OF assms(1)] assms(2)
  have "reg' = releaseRequest (requestKey conversationId)
                 (foldl applyOp (snd (registerRequest (requestKey conversationId) reg))
                    (w_interleaved w))"
    by auto
  then show ?thesis by (simp add: releaseRequest_def delete_conv)
qed

lemma okServer_fetched:
  "fetchWithRetry okServer body = (Inr (Some hiHttp), body, [body])"
  by (simp add: fetchWithRetry_def maxAttempts_def numeral_3_eq_3 okServer_def hiHttp_def
        ok_def)

lemma hiResponse_handled:
  "handleNonStreamResponse (\<lambda>s. Inr hiResponse) (Inr hiText) (Some 1000) 2000 =
     (Inr ''hi'', [OnComplete ''hi'' None None None])"
proof -
  have spans: "thinkSpans ''hi'' = ([], ''hi'')"
    by (simp add: thinkSpans.simps)
  show ?thesis
    by (simp add: handleNonStreamResponse_def nonStreamTry_def nonStreamBody_def hiResponse_def
          hiText_def
          trim_def isSpace_def responseModelName_def extractModelName_def getTrimmedString_def
          orElse_def parseThinkTags_def spans Let_def firstMessage_def responseContent_def
          responseReasoning_def responseToolCalls_def)
qed

lemma exampleWorld_run:
  "sendMessage exampleWorld twoRequests helloMessages [(''stream'', JBool False)] (Some ''c1'') =
     Some (ResolvedWith ''hi'', [OnComplete ''hi'' None None None],
           \<lparr>controllers = [], abortedRefs = {0, 1, 2}, nextRef = 4\<rparr>)"
proof -
  have tried: "\<And>body. tryBlock exampleWorld body False = Some (HandedOver hiHttp)"
    by (simp add: tryBlock_def exampleWorld_def okServer_fetched hiHttp_def ok_def)
  have handed: "handedOver exampleWorld hiHttp =
      (ResolvedWith ''hi'', [OnComplete ''hi'' None None None])"
    using hiResponse_handled by (simp add: handedOver_def exampleWorld_def hiHttp_def)
  have interleaved:
    "w_interleaved exampleWorld = [SendEnter (Some ''c1''), AbortCall (Some ''c2'')]"
    "w_interleavedBody exampleWorld = []"
    by (simp_all add: exampleWorld_def)
  have registry:
    "releaseRequest ''c1''
       (foldl applyOp (snd (registerRequest ''c1'' twoRequests))
          [SendEnter (Some ''c1''), AbortCall (Some ''c2'')]) =
     \<lparr>controllers = [], abortedRefs = {0, 1, 2}, nextRef = 4\<rparr>"
    by (simp add: twoRequests_eq registerRequest_def releaseRequest_def abort_def abortRef_def
          requestKey_def Let_def insert_commute)
  show ?thesis
    using registry
    by (simp add: sendMessage_def Let_def tried handed getProp_def requestKey_def interleaved)
qed

text \<open>
  Claim C10. Once the promise of \<open>sendMessage\<close> has settled, the map of controllers is
  to have no entry under the call's request key. The code misses this on the
  non-streaming path, where the handler's promise is returned without \<open>await\<close> (the
  streaming handler is awaited): the \<open>finally\<close> block deletes the key while the body
  is still being read. A call without conversation id and without streaming, during
  whose body read another call without conversation id starts, settles with the other
  call's controller in the map under \<open>default\<close>.
\<close>

theorem nonstream_release_before_settle:
  "sendMessage titleWorld emptyRegistry helloMessages [(''stream'', JBool False)] None =
     Some (ResolvedWith ''hi'', [OnComplete ''hi'' None None None],
           \<lparr>controllers = [(''default'', 1)], abortedRefs = {}, nextRef = 2\<rparr>)
   \<and> requestKey None = ''default''
   \<and> map_of (controllers \<lparr>controllers = [(''default'', 1)], abortedRefs = {}, nextRef = 2\<rparr>)
         (requestKey None) = Some 1"
proof -
  have tried: "\<And>body. tryBlock titleWorld body False = Some (HandedOver hiHttp)"
    by (simp add: tryBlock_def titleWorld_def exampleWorld_def okServer_fetched hiHttp_def
          ok_def)
  have handed: "handedOver titleWorld hiHttp =
      (ResolvedWith ''hi'', [OnComplete ''hi'' None None None])"
    using hiResponse_handled
    by (simp add: handedOver_def titleWorld_def exampleWorld_def hiHttp_def)
  have interleaved:
    "w_interleaved titleWorld = []" "w_interleavedBody titleWorld = [SendEnter None]"
    by (simp_all add: titleWorld_def exampleWorld_def)
  have registry:
    "foldl applyOp
       (releaseRequest ''default'' (snd (registerRequest ''default'' emptyRegistry)))
       [SendEnter None] =
     \<lparr>controllers = [(''default'', 1)], abortedRefs = {}, nextRef = 2\<rparr>"
    by (simp add: emptyRegistry_def registerRequest_def releaseRequest_def requestKey_def
          Let_def numeral_2_eq_2)
  have run: "sendMessage titleWorld emptyRegistry helloMessages [(''stream'', JBool False)] None =
     Some (ResolvedWith ''hi'', [OnComplete ''hi'' None None None],
           \<lparr>controllers = [(''default'', 1)], abortedRefs = {}, nextRef = 2\<rparr>)"
    using registry
    by (simp add: sendMessage_def Let_def tried handed getProp_def requestKey_def interleaved)
  then show ?thesis by (simp add: requestKey_def)
qed

section \<open>Properties of the response finalizer\<close>





lemma finishStream_usage:
  assumes "streamFinished st" "\<not> aborted st" "usageData st = Some u" "lastTimings st = None"
  shows "calls (finishStream s e st) =
     calls st @ [OnComplete (aggregatedContent st)
        (if fullReasoningContent st = [] then None else Some (fullReasoningContent st))
        (Some (streamUsageTimings u s (firstTokenTime st) e))
        (if aggregatedToolCalls st = [] then None else Some (aggregatedToolCalls st))]"
  using assms
  by (simp add: finishStream_def finalizeOpenToolCallBatch_def emit_def Let_def)


lemma completions_append: "completions (xs @ ys) = completions xs @ completions ys"
  by (induction xs rule: completions.induct) simp_all


lemmas stream_simps = handleStreamResponse_def processText_def processLine_def
  processChunk_def reportModel_def trackFirstToken_def captureUsage_def updateTimings_def
  firstDelta_def firstFinishReason_def initialState_def emitFirstValidChunk_def emit_def
  chunkModelName_def
  extractModelName_def getTrimmedString_def orElse_def processContent_def processReasoning_def
  processToolCallDelta_def finalizeOpenToolCallBatch_def openThink_def closeThink_def
  partOrEmpty_def finishStream_def startsWith_def newline_def jsSplit.simps Let_def

lemma usageStream_run:
  "handleStreamResponse usageParse 1000 False (Some usageStream) =
     Some (None, [OnFirstValidChunk, OnChunk ''hi'',
                  OnComplete ''hi'' None
                    (Some \<lparr>prompt_n = Some 10, prompt_ms = Some 200, predicted_n = Some 90,
                           predicted_ms = Some 800, cache_n = None\<rparr>) None])"
  by (simp add: stream_simps usageStream_def usageParse_def usageChunk_def exampleUsage_def
        streamUsageTimings_def)


lemma trim_empty_spaces:
  assumes "trim s = []"
  shows "\<forall>c \<in> set s. isSpace c"
proof -
  from assms have all: "\<forall>c \<in> set (dropWhile isSpace s). isSpace c"
    by (simp add: trim_def dropWhile_eq_Nil_conv)
  have "dropWhile isSpace s = []"
  proof (rule ccontr)
    assume ne: "dropWhile isSpace s \<noteq> []"
    then have "\<not> isSpace (hd (dropWhile isSpace s))" by (rule hd_dropWhile)
    moreover from ne have "hd (dropWhile isSpace s) \<in> set (dropWhile isSpace s)" by simp
    ultimately show False using all by blast
  qed
  then show ?thesis by (simp add: dropWhile_eq_Nil_conv)
qed

lemma splitFirst_absent: "sep \<noteq> [] \<Longrightarrow> hd sep \<notin> set s \<Longrightarrow> splitFirst sep s = None"
proof (induction s)
  case Nil
  then show ?case by simp
next
  case (Cons c cs)
  from Cons.prems have "\<not> prefix sep (c # cs)"
    by (cases sep) auto
  with Cons show ?case by simp
qed

lemma parseThinkTags_spaces:
  assumes "trim s = []"
  shows "parseThinkTags s = (s, None)"
proof -
  have "\<not> isSpace CHR ''<''" by (simp add: isSpace_def)
  with trim_empty_spaces [OF assms] have "CHR ''<'' \<notin> set s" by blast
  then have "splitFirst ''<think>'' s = None"
    by (intro splitFirst_absent) simp_all
  then have "thinkSpans s = ([], s)" by (simp add: thinkSpans.simps)
  then show ?thesis by (simp add: parseThinkTags_def)
qed

text \<open>
  What the code does deliver. Every error of \<open>handleNonStreamResponse\<close> is reported to
  \<open>onError\<close> before it is thrown. A body that is empty or blank, and a parsed body with a
  \<open>choices\<close> array whose first message has no textual content other than white space
  and no tool calls, give the "no response received" error, without a call of
  \<open>onComplete\<close> (the only other callback possible is the report of the model name).
\<close>

lemma handler_error_reported:
  "handleNonStreamResponse parse textResult startTime endTime = (Inl e, cs) \<Longrightarrow>
     \<exists>cs'. cs = cs' @ [OnError e]"
  by (auto simp: handleNonStreamResponse_def split: prod.splits sum.splits)

lemma no_content_throws:
  assumes "trim responseText = []
           \<or> (parse responseText = Inr data \<and> cr_choices data \<noteq> None
               \<and> trim (responseContent data) = []
               \<and> (responseToolCalls data = None \<or> responseToolCalls data = Some []))"
  shows "\<exists>cs. handleNonStreamResponse parse (Inr responseText) startTime endTime =
                 (Inl noResponseError, cs @ [OnError noResponseError])
              \<and> (cs = [] \<or> (\<exists>m. cs = [OnModel m]))"
proof (cases "trim responseText = []")
  case True
  then show ?thesis by (simp add: handleNonStreamResponse_def nonStreamTry_def)
next
  case False
  with assms have data: "parse responseText = Inr data"
    and choices: "cr_choices data \<noteq> None"
    and blank: "trim (responseContent data) = []"
    and tools: "responseToolCalls data = None \<or> responseToolCalls data = Some []"
    by auto
  from parseThinkTags_spaces [OF blank]
  have content: "fst (parseThinkTags (responseContent data)) = responseContent data" by simp
  have "nonStreamBody data calls1 startTime endTime = (Inl noResponseError, calls1)" for calls1
    using tools
  proof
    assume "responseToolCalls data = None"
    with blank content show ?thesis
      by (simp add: nonStreamBody_def Let_def)
  next
    assume "responseToolCalls data = Some []"
    with blank content show ?thesis
      by (simp add: nonStreamBody_def Let_def)
  qed
  moreover from choices obtain chs where "cr_choices data = Some chs" by auto
  ultimately have "nonStreamTry parse (Inr responseText) startTime endTime =
      (Inl noResponseError,
       case responseModelName data of None \<Rightarrow> [] | Some m \<Rightarrow> [OnModel m])"
    using False data by (simp add: nonStreamTry_def Let_def)
  then show ?thesis
    by (cases "responseModelName data") (simp_all add: handleNonStreamResponse_def)
qed

lemma no_content_throws_example:
  "trim (responseContent blankResponse) = [] \<and> responseToolCalls blankResponse = Some []
   \<and> handleNonStreamResponse (\<lambda>s. Inr blankResponse) (Inr blankText) (Some 1000) 2000 =
       (Inl noResponseError, [OnModel ''m'', OnError noResponseError])
   \<and> handleNonStreamResponse (\<lambda>s. Inr blankResponse) (Inr []) (Some 1000) 2000 =
       (Inl noResponseError, [OnError noResponseError])"
proof -
  have blank: "trim (responseContent blankResponse) = []"
    by (simp add: responseContent_def firstMessage_def blankResponse_def trim_def isSpace_def)
  have tools: "responseToolCalls blankResponse = Some []"
    by (simp add: responseToolCalls_def firstMessage_def blankResponse_def)
  have choices: "cr_choices blankResponse =
      Some [\<lparr>rc_message = Some \<lparr>m_content = Some [CHR '' '', CHR 0xA0], m_reasoning = None,
                                   m_reasoning_content = None, m_tool_calls = Some [],
                                   m_model = None\<rparr>,
               rc_delta_model = None\<rparr>]"
    by (simp add: blankResponse_def)
  have model: "responseModelName blankResponse = Some ''m''"
    by (simp add: responseModelName_def extractModelName_def getTrimmedString_def
          blankResponse_def trim_def isSpace_def)
  have body: "nonStreamBody blankResponse [OnModel ''m''] (Some 1000) 2000 =
      (Inl noResponseError, [OnModel ''m''])"
    using blank tools parseThinkTags_spaces [OF blank]
    by (simp add: nonStreamBody_def Let_def)
  have "nonStreamTry (\<lambda>s. Inr blankResponse) (Inr blankText) (Some 1000) 2000 =
      (Inl noResponseError, [OnModel ''m''])"
    using choices model body
    by (simp add: nonStreamTry_def Let_def trim_def isSpace_def blankText_def)
  then have first:
    "handleNonStreamResponse (\<lambda>s. Inr blankResponse) (Inr blankText) (Some 1000) 2000 =
       (Inl noResponseError, [OnModel ''m'', OnError noResponseError])"
    by (simp add: handleNonStreamResponse_def)
  have second: "handleNonStreamResponse (\<lambda>s. Inr blankResponse) (Inr []) (Some 1000) 2000 =
       (Inl noResponseError, [OnError noResponseError])"
    by (simp add: handleNonStreamResponse_def nonStreamTry_def trim_def)
  from blank tools first second show ?thesis by (intro conjI)
qed

text \<open>
  A parsed body without a \<open>choices\<close> array: the error thrown, and reported, is the
  \<open>TypeError\<close> of reading \<open>data.choices[0]\<close>, after the model name has been reported.
\<close>

lemma missing_choices_throws:
  assumes "trim responseText \<noteq> []" and "parse responseText = Inr data"
    and "cr_choices data = None"
  shows "handleNonStreamResponse parse (Inr responseText) startTime endTime =
           (Inl choicesTypeError,
            (case getTrimmedString (cr_model data) of None \<Rightarrow> [] | Some m \<Rightarrow> [OnModel m])
              @ [OnError choicesTypeError])"
  using assms
  by (cases "getTrimmedString (cr_model data)")
     (simp_all add: handleNonStreamResponse_def nonStreamTry_def responseModelName_def
        extractModelName_def Let_def)

text \<open>
  Claim C8. A non-streaming response whose body is empty, or whose parsed body has
  neither textual content other than white space nor tool calls, is to make
  \<open>handleNonStreamResponse\<close> throw the "no response received" error and report it to
  \<open>onError\<close>. The code misses the parsed body without a \<open>choices\<close> array: for the body
  \<open>{}\<close>, which has neither content nor tool calls, the error thrown and reported is the
  \<open>TypeError\<close> of reading \<open>data.choices[0]\<close>, not the "no response received" error;
  for a body that names only a model, the model is reported first.
\<close>

theorem missing_choices_type_error:
  "responseContent emptyObjectResponse = [] \<and> responseToolCalls emptyObjectResponse = None
   \<and> handleNonStreamResponse (\<lambda>s. Inr emptyObjectResponse) (Inr ''{}'') (Some 1000) 2000 =
       (Inl choicesTypeError, [OnError choicesTypeError])
   \<and> responseContent modelOnlyResponse = [] \<and> responseToolCalls modelOnlyResponse = None
   \<and> handleNonStreamResponse (\<lambda>s. Inr modelOnlyResponse) (Inr modelOnlyText) (Some 1000) 2000 =
       (Inl choicesTypeError, [OnModel ''m'', OnError choicesTypeError])
   \<and> err_name choicesTypeError = ''TypeError''
   \<and> choicesTypeError \<noteq> noResponseError"
  by (simp add: handleNonStreamResponse_def nonStreamTry_def responseModelName_def
        extractModelName_def getTrimmedString_def emptyObjectResponse_def modelOnlyResponse_def
        modelOnlyText_def responseContent_def responseToolCalls_def firstMessage_def
        choicesTypeError_def noResponseError_def trim_def isSpace_def Let_def)

section \<open>Properties of the stream decoder\<close>

lemma sameControl_refl: "sameControl st st"
  by (simp add: sameControl_def)

lemma sameControl_trans [trans]:
  "sameControl a b \<Longrightarrow> sameControl b c \<Longrightarrow> sameControl a c"
  by (simp add: sameControl_def)

lemma sameControl_emit:
  "completions [c] = [] \<Longrightarrow> sameControl st (emit c st)"
  by (simp add: sameControl_def emit_def completions_append)

lemma sameControl_emitFirstValidChunk: "sameControl st (emitFirstValidChunk parsed st)"
  by (simp add: sameControl_def emitFirstValidChunk_def emit_def completions_append Let_def)

lemma sameControl_reportModel: "sameControl st (reportModel m st)"
  by (cases m) (simp_all add: sameControl_def reportModel_def emit_def completions_append)

lemma sameControl_trackFirstToken: "sameControl st (trackFirstToken now c r st)"
  by (simp add: sameControl_def trackFirstToken_def)

lemma sameControl_captureUsage: "sameControl st (captureUsage u f st)"
  by (cases u) (simp_all add: sameControl_def captureUsage_def)

lemma sameControl_updateTimings: "sameControl st (updateTimings t p st)"
  by (cases t) (simp_all add: sameControl_def updateTimings_def emit_def completions_append Let_def)

lemma sameControl_finalize: "sameControl st (finalizeOpenToolCallBatch st)"
  by (simp add: sameControl_def finalizeOpenToolCallBatch_def)

lemma sameControl_openThink: "sameControl st (openThink st)"
  by (simp add: sameControl_def openThink_def emit_def completions_append Let_def)

lemma sameControl_closeThink: "sameControl st (closeThink c st)"
  by (simp add: sameControl_def closeThink_def emit_def completions_append Let_def)

lemma sameControl_processContent: "sameControl st (processContent c st)"
proof (cases c)
  case None
  then show ?thesis by (simp add: processContent_def sameControl_refl)
next
  case (Some x)
  have a: "sameControl st ((finalizeOpenToolCallBatch st)
      \<lparr>thinkBuffer := thinkBuffer (finalizeOpenToolCallBatch st) @ x\<rparr>)"
    using sameControl_finalize [of st] by (simp add: sameControl_def)
  show ?thesis
    using Some sameControl_trans [OF a sameControl_trans [OF sameControl_openThink sameControl_closeThink]]
    by (simp add: processContent_def Let_def sameControl_refl)
qed

lemma sameControl_processReasoning: "sameControl st (processReasoning r st)"
  by (cases r)
     (simp_all add: sameControl_def processReasoning_def finalizeOpenToolCallBatch_def emit_def
        completions_append Let_def)

lemma sameControl_processToolCallDelta: "sameControl st (processToolCallDelta tc st)"
  by (cases tc)
     (simp_all add: sameControl_def processToolCallDelta_def emit_def completions_append Let_def)

lemma sameControl_processChunk: "sameControl st (processChunk now parsed st)"
proof (cases "ch_choices parsed")
  case None
  then show ?thesis by (simp add: processChunk_def Let_def sameControl_emitFirstValidChunk)
next
  case (Some cs)
  define dl where "dl = firstDelta cs"
  define content where "content = (case dl of None \<Rightarrow> None | Some d \<Rightarrow> d_content d)"
  define reasoningContent where "reasoningContent =
    (case dl of None \<Rightarrow> None | Some d \<Rightarrow> orElse (d_reasoning d) (d_reasoning_content d))"
  define toolCalls where "toolCalls = (case dl of None \<Rightarrow> None | Some d \<Rightarrow> d_tool_calls d)"
  define s1 where "s1 = emitFirstValidChunk parsed st"
  define s2 where "s2 = reportModel (chunkModelName parsed) s1"
  define s3 where "s3 = trackFirstToken now content reasoningContent s2"
  define s4 where "s4 = captureUsage (ch_usage parsed) (firstFinishReason cs) s3"
  define s5 where "s5 = updateTimings (ch_timings parsed) (ch_prompt_progress parsed) s4"
  define s6 where "s6 = processContent content s5"
  define s7 where "s7 = processReasoning reasoningContent s6"
  have eq: "processChunk now parsed st = processToolCallDelta toolCalls s7"
    by (simp add: processChunk_def Let_def Some dl_def content_def reasoningContent_def
          toolCalls_def s1_def s2_def s3_def s4_def s5_def s6_def s7_def)
  have "sameControl st s1" unfolding s1_def by (rule sameControl_emitFirstValidChunk)
  also have "sameControl s1 s2" unfolding s2_def by (rule sameControl_reportModel)
  also have "sameControl s2 s3" unfolding s3_def by (rule sameControl_trackFirstToken)
  also have "sameControl s3 s4" unfolding s4_def by (rule sameControl_captureUsage)
  also have "sameControl s4 s5" unfolding s5_def by (rule sameControl_updateTimings)
  also have "sameControl s5 s6" unfolding s6_def by (rule sameControl_processContent)
  also have "sameControl s6 s7" unfolding s7_def by (rule sameControl_processReasoning)
  also have "sameControl s7 (processToolCallDelta toolCalls s7)"
    by (rule sameControl_processToolCallDelta)
  finally show ?thesis by (simp only: eq)
qed

lemma done_line: "startsWith line ''data: '' \<Longrightarrow> drop 6 line = ''[DONE]'' \<Longrightarrow> line = ''data: [DONE]''"
proof -
  assume p: "startsWith line ''data: ''" and d: "drop 6 line = ''[DONE]''"
  from p obtain r where "line = ''data: '' @ r" by (auto simp: startsWith_def prefix_def)
  with d show ?thesis by simp
qed

lemma processLine_control:
  "completions (calls (processLine parse now st line)) = completions (calls st)
   \<and> aborted (processLine parse now st line) = aborted st
   \<and> chunk (processLine parse now st line) = chunk st
   \<and> (streamFinished (processLine parse now st line) \<longrightarrow>
        streamFinished st \<or> line = ''data: [DONE]'')"
proof (cases "\<not> aborted st \<and> startsWith line ''data: '' \<and> drop 6 line \<noteq> ''[DONE]''")
  case True
  then show ?thesis
    using sameControl_processChunk [of st now]
    by (auto simp: processLine_def Let_def sameControl_def split: option.splits)
next
  case False
  then show ?thesis
    by (auto simp: processLine_def Let_def dest: done_line)
qed

lemma processLines_control:
  "completions (calls (foldl (processLine parse now) st lines)) = completions (calls st)
   \<and> aborted (foldl (processLine parse now) st lines) = aborted st
   \<and> chunk (foldl (processLine parse now) st lines) = chunk st
   \<and> (streamFinished (foldl (processLine parse now) st lines) \<longrightarrow>
        streamFinished st \<or> ''data: [DONE]'' \<in> set lines)"
proof (induction lines arbitrary: st)
  case Nil
  then show ?case by simp
next
  case (Cons l ls)
  from Cons.IH [of "processLine parse now st l"] processLine_control [of parse now st l]
  show ?case by auto
qed

lemma jsSplit_nonempty: "sep \<noteq> [] \<Longrightarrow> jsSplit s sep \<noteq> []"
  by (subst jsSplit.simps) (auto split: option.splits)

lemma processText_control:
  "completions (calls (processText parse now v st)) = completions (calls st)
   \<and> aborted (processText parse now v st) = aborted st
   \<and> chunk (processText parse now v st) = last (jsSplit (chunk st @ v) newline)
   \<and> (streamFinished (processText parse now v st) \<longrightarrow>
        streamFinished st \<or> ''data: [DONE]'' \<in> set (butlast (jsSplit (chunk st @ v) newline)))"
  using processLines_control [of parse now
      "st\<lparr>chunk := last (jsSplit (chunk st @ v) newline)\<rparr>"
      "butlast (jsSplit (chunk st @ v) newline)"]
  by (simp add: processText_def Let_def jsSplit_nonempty newline_def)

lemma finishStream_complete:
  "completions (calls st) = [] \<Longrightarrow> completions (calls (finishStream s e st)) \<noteq> [] \<Longrightarrow>
     streamFinished st \<and> \<not> aborted st"
  by (auto simp: finishStream_def Let_def split: if_splits)


lemma jsSplit_newline_Nil: "jsSplit [] newline = [[]]"
  by (simp add: jsSplit.simps newline_def)

lemma jsSplit_newline_Cons:
  "jsSplit (c # cs) newline =
     (if c = CHR 0x0A then [] # jsSplit cs newline
      else (c # hd (jsSplit cs newline)) # tl (jsSplit cs newline))"
proof (cases "c = CHR 0x0A")
  case True
  then show ?thesis by (subst jsSplit.simps) (simp add: newline_def)
next
  case False
  show ?thesis
  proof (cases "splitFirst newline cs")
    case None
    with False show ?thesis
      by (simp add: jsSplit.simps [of "c # cs"] jsSplit.simps [of cs] newline_def)
  next
    case (Some p)
    obtain a b where "p = (a, b)" by (cases p)
    with Some False show ?thesis
      by (simp add: jsSplit.simps [of "c # cs"] jsSplit.simps [of cs] newline_def)
  qed
qed

lemma jsSplit_newline_nonempty: "jsSplit s newline \<noteq> []"
  by (simp add: jsSplit_nonempty newline_def)

lemma jsSplit_append:
  "jsSplit (x @ y) newline =
     butlast (jsSplit x newline) @ jsSplit (last (jsSplit x newline) @ y) newline"
proof (induction x)
  case Nil
  then show ?case by (simp add: jsSplit_newline_Nil)
next
  case (Cons c x)
  obtain l ls where L: "jsSplit x newline = l # ls"
    using jsSplit_newline_nonempty [of x] by (cases "jsSplit x newline") auto
  show ?case
  proof (cases "c = CHR 0x0A")
    case True
    with Cons.IH L show ?thesis
      by (simp add: jsSplit_newline_Cons)
  next
    case False
    show ?thesis
    proof (cases ls)
      case Nil
      with Cons.IH L False show ?thesis
        by (simp add: jsSplit_newline_Cons)
    next
      case (Cons l2 ls2)
      with Cons.IH L False show ?thesis
        by (simp add: jsSplit_newline_Cons)
    qed
  qed
qed

lemma butlast_jsSplit_append:
  "butlast (jsSplit (x @ y) newline) =
     butlast (jsSplit x newline) @ butlast (jsSplit (last (jsSplit x newline) @ y) newline)"
  by (subst jsSplit_append) (simp add: butlast_append jsSplit_newline_nonempty)

lemma readLoop_complete:
  assumes "readLoop parse s reads st = Some (err, st')"
    and "completions (calls st') \<noteq> []" and "completions (calls st) = []"
  shows "\<not> aborted st \<and> err = None
     \<and> (\<exists>vals stop rest. reads = vals @ stop # rest \<and> ev_result stop = ReadDone
           \<and> \<not> ev_aborted stop
           \<and> (\<forall>ev \<in> set vals. \<not> ev_aborted ev \<and> (\<exists>t. ev_result ev = ReadValue t))
           \<and> (streamFinished st
               \<or> ''data: [DONE]'' \<in> set (butlast (jsSplit (chunk st @ concat (map valueText vals))
                                                 newline))))"
  using assms
proof (induction reads arbitrary: st)
  case Nil
  then show ?case by (auto split: if_splits)
next
  case (Cons ev evs)
  from Cons.prems have na: "\<not> aborted st" by (auto split: if_splits)
  let ?st1 = "st\<lparr>aborted := ev_aborted ev\<rparr>"
  show ?case
  proof (cases "ev_result ev")
    case (ReadFails e)
    with Cons.prems na show ?thesis
      by (auto simp: Let_def emit_def completions_append)
  next
    case ReadDone
    with Cons.prems na have fin: "st' = finishStream s (ev_now ev) ?st1" and e: "err = None"
      by (auto simp: Let_def)
    from finishStream_complete [of ?st1 s "ev_now ev"] Cons.prems(2,3) fin
    have "streamFinished st \<and> \<not> ev_aborted ev" by simp
    with ReadDone
    have "\<exists>vals stop rest. ev # evs = vals @ stop # rest \<and> ev_result stop = ReadDone
           \<and> \<not> ev_aborted stop
           \<and> (\<forall>ev \<in> set vals. \<not> ev_aborted ev \<and> (\<exists>t. ev_result ev = ReadValue t))
           \<and> (streamFinished st
               \<or> ''data: [DONE]'' \<in> set (butlast (jsSplit (chunk st @ concat (map valueText vals))
                                                 newline)))"
      by (intro exI [of _ "[]"] exI [of _ ev] exI [of _ evs]) simp
    with na e show ?thesis by simp
  next
    case (ReadValue v)
    let ?st2 = "processText parse (ev_now ev) v ?st1"
    note ctl = processText_control [of parse "ev_now ev" v ?st1]
    from ctl Cons.prems(3) have none2: "completions (calls ?st2) = []" by simp
    have nab: "\<not> ev_aborted ev"
    proof
      assume "ev_aborted ev"
      with Cons.prems(1) na ReadValue have "st' = ?st1" by (simp add: Let_def)
      with Cons.prems(2,3) show False by simp
    qed
    with ctl have nab2: "\<not> aborted ?st2" by simp
    from Cons.prems(1) na ReadValue nab nab2
    have rec: "readLoop parse s evs ?st2 = Some (err, st')" by (simp add: Let_def)
    from Cons.IH [OF rec Cons.prems(2) none2]
    obtain vals stop rest where e: "err = None" and r: "evs = vals @ stop # rest"
      and d: "ev_result stop = ReadDone" "\<not> ev_aborted stop"
      and vs: "\<forall>ev \<in> set vals. \<not> ev_aborted ev \<and> (\<exists>t. ev_result ev = ReadValue t)"
      and fin: "streamFinished ?st2
               \<or> ''data: [DONE]'' \<in> set (butlast (jsSplit (chunk ?st2 @ concat (map valueText vals))
                                                 newline))"
      by blast
    have "streamFinished st
          \<or> ''data: [DONE]'' \<in> set (butlast (jsSplit (chunk st @ concat (map valueText (ev # vals)))
                                                 newline))"
    proof -
      have cat: "chunk st @ concat (map valueText (ev # vals)) =
          (chunk st @ v) @ concat (map valueText vals)"
        using ReadValue by (simp add: valueText_def)
      from fin ctl show ?thesis
        unfolding cat butlast_jsSplit_append [of "chunk st @ v"]
        by auto
    qed
    with r d vs nab ReadValue
    have "\<exists>vals stop rest. ev # evs = vals @ stop # rest \<and> ev_result stop = ReadDone
           \<and> \<not> ev_aborted stop
           \<and> (\<forall>ev \<in> set vals. \<not> ev_aborted ev \<and> (\<exists>t. ev_result ev = ReadValue t))
           \<and> (streamFinished st
               \<or> ''data: [DONE]'' \<in> set (butlast (jsSplit (chunk st @ concat (map valueText vals))
                                                 newline)))"
      by (intro exI [of _ "ev # vals"] exI [of _ stop] exI [of _ rest]) simp
    with na e show ?thesis by simp
  qed
qed


text \<open>
  Claim C4. If \<open>handleStreamResponse\<close> calls \<open>onComplete\<close>, then the stream was not
  aborted at any read, it reached its end (a read reported \<open>done\<close>), every read before
  that delivered text, and a line \<open>data: [DONE]\<close> is among the complete lines of that
  text. So a stream that ends, or is aborted, without such a line never completes.
\<close>

theorem complete_only_after_done:
  assumes "handleStreamResponse parse startTime initiallyAborted body = Some (err, trace)"
    and "completions trace \<noteq> []"
  shows "\<not> initiallyAborted \<and> err = None
         \<and> (\<exists>reads vals stop rest. body = Some reads \<and> reads = vals @ stop # rest
               \<and> ev_result stop = ReadDone \<and> \<not> ev_aborted stop
               \<and> (\<forall>ev \<in> set vals. \<not> ev_aborted ev \<and> (\<exists>t. ev_result ev = ReadValue t))
               \<and> ''data: [DONE]'' \<in> set (decodedLines vals))"
proof (cases body)
  case None
  with assms show ?thesis by (simp add: handleStreamResponse_def)
next
  case (Some reads)
  with assms(1) obtain st' where
    loop: "readLoop parse startTime reads (initialState initiallyAborted) = Some (err, st')"
    and tr: "trace = calls st'"
    by (auto simp: handleStreamResponse_def)
  have start: "completions (calls (initialState initiallyAborted)) = []"
    "aborted (initialState initiallyAborted) = initiallyAborted"
    "\<not> streamFinished (initialState initiallyAborted)"
    "chunk (initialState initiallyAborted) = []"
    by (simp_all add: initialState_def)
  from assms(2) tr have "completions (calls st') \<noteq> []" by simp
  from readLoop_complete [OF loop this start(1)] start(2,3,4) Some
  show ?thesis by (simp add: decodedLines_def)
qed

text \<open>
  The theorem at a stream that completes; and two streams that do not: one that ends
  without \<open>[DONE]\<close>, one whose \<open>[DONE]\<close> is not followed by a line feed.
\<close>

theorem complete_only_after_done_witness:
  "handleStreamResponse usageParse 1000 False (Some usageStream) =
     Some (None, [OnFirstValidChunk, OnChunk ''hi'',
                  OnComplete ''hi'' None
                    (Some \<lparr>prompt_n = Some 10, prompt_ms = Some 200, predicted_n = Some 90,
                           predicted_ms = Some 800, cache_n = None\<rparr>) None])
   \<and> (\<exists>vals stop rest. usageStream = vals @ stop # rest \<and> ev_result stop = ReadDone
         \<and> ''data: [DONE]'' \<in> set (decodedLines vals))
   \<and> handleStreamResponse usageParse 1000 False (Some truncatedStream) =
       Some (None, [OnFirstValidChunk, OnChunk ''hi''])
   \<and> handleStreamResponse usageParse 1000 False (Some unterminatedStream) =
       Some (None, [OnFirstValidChunk, OnChunk ''hi''])"
proof -
  note run = usageStream_run
  have called': "completions [OnFirstValidChunk, OnChunk ''hi'',
                  OnComplete ''hi'' None
                    (Some \<lparr>prompt_n = Some 10, prompt_ms = Some 200, predicted_n = Some 90,
                           predicted_ms = Some 800, cache_n = None\<rparr>) None] \<noteq> []"
    by simp
  from complete_only_after_done [OF run called']
  have lines: "\<exists>vals stop rest. usageStream = vals @ stop # rest \<and> ev_result stop = ReadDone
         \<and> ''data: [DONE]'' \<in> set (decodedLines vals)"
    by auto
  have truncated: "handleStreamResponse usageParse 1000 False (Some truncatedStream) =
       Some (None, [OnFirstValidChunk, OnChunk ''hi''])"
    by (simp add: stream_simps truncatedStream_def usageParse_def usageChunk_def exampleUsage_def)
  have unterminated: "handleStreamResponse usageParse 1000 False (Some unterminatedStream) =
       Some (None, [OnFirstValidChunk, OnChunk ''hi''])"
    by (simp add: stream_simps unterminatedStream_def usageParse_def usageChunk_def
          exampleUsage_def)
  from run lines truncated unterminated show ?thesis by (intro conjI)
qed

text \<open>
  Claim C1 does not hold of the code. The scanner appends every content delta to
  \<open>thinkBuffer\<close>, also while outside a think span, where the delta is emitted as visible
  content at once; when the opening tag is then found, the text before it - already
  emitted - is emitted again. Split as \<open>A\<close> and \<open><think>B</think>C\<close>, the stream
  delivers the visible text \<open>AAC\<close>; split inside the opening tag, it also delivers the
  tag's first half. Unsplit, or with the split behind the opening tag, it delivers
  \<open>AC\<close> and \<open>B\<close>.
\<close>

theorem think_split_repeats_prefix:
  "concat [''A'', ''<think>B</think>C''] = ''A<think>B</think>C''
   \<and> calls (streamDeltas [''A'', ''<think>B</think>C'']) =
       [OnFirstValidChunk, OnChunk ''A'', OnChunk ''A'', OnReasoningChunk ''B'', OnChunk ''C'']
   \<and> visibleOf (calls (streamDeltas [''A'', ''<think>B</think>C''])) = ''AAC''
   \<and> aggregatedContent (streamDeltas [''A'', ''<think>B</think>C'']) = ''AAC''
   \<and> visibleOf (calls (streamDeltas [''A<thi'', ''nk>B</think>C''])) = ''A<thiAC''
   \<and> visibleOf (calls (streamDeltas [''A<think>B</think>C''])) = ''AC''
   \<and> reasoningOf (calls (streamDeltas [''A<think>B</think>C''])) = ''B''
   \<and> visibleOf (calls (streamDeltas [''A<think>'', ''B</thi'', ''nk>C''])) = ''AC''
   \<and> reasoningOf (calls (streamDeltas [''A<think>'', ''B</thi'', ''nk>C''])) = ''B''"
proof -
  have split1: "calls (streamDeltas [''A'', ''<think>B</think>C'']) =
       [OnFirstValidChunk, OnChunk ''A'', OnChunk ''A'', OnReasoningChunk ''B'', OnChunk ''C'']"
    "aggregatedContent (streamDeltas [''A'', ''<think>B</think>C'']) = ''AAC''"
    by (simp_all add: streamDeltas_def contentChunk_def stream_simps)
  have split2: "calls (streamDeltas [''A<thi'', ''nk>B</think>C'']) =
       [OnFirstValidChunk, OnChunk ''A<thi'', OnChunk ''A'', OnReasoningChunk ''B'', OnChunk ''C'']"
    by (simp add: streamDeltas_def contentChunk_def stream_simps)
  have whole: "calls (streamDeltas [''A<think>B</think>C'']) =
       [OnFirstValidChunk, OnChunk ''A'', OnReasoningChunk ''B'', OnChunk ''C'']"
    by (simp add: streamDeltas_def contentChunk_def stream_simps)
  have split3: "calls (streamDeltas [''A<think>'', ''B</thi'', ''nk>C'']) =
       [OnFirstValidChunk, OnChunk ''A'', OnReasoningChunk ''B'', OnChunk ''C'']"
    by (simp add: streamDeltas_def contentChunk_def stream_simps)
  show ?thesis
    unfolding split1 split2 whole split3 by simp
qed

section \<open>Properties of the timing snapshot\<close>


































end
